theory Spec2Isabelle
  imports Complex_Main
begin

section \<open>Arrays\<close>

text \<open>
  A numpy vector is a list of reals and a two-dimensional numpy array is the list of its
  rows. Floating-point numbers (float64, and the float32 of the normalisation) are
  idealised as real numbers throughout: rounding is not modelled.
\<close>

type_synonym vec = "real list"
type_synonym mat = "real list list"

text \<open>The exceptions the functions of \<^verbatim>\<open>reconstruction.py\<close> can raise.\<close>

datatype error =
    AxisError      \<comment> \<open>\<^verbatim>\<open>np.concatenate(..., axis=1)\<close> on a one-dimensional array\<close>
  | SampleError    \<comment> \<open>\<^verbatim>\<open>np.random.choice\<close>: sample larger than the population\<close>
  | InlierError    \<comment> \<open>the \<^verbatim>\<open>ValueError\<close> raised by \<^verbatim>\<open>resection\<close> itself\<close>
  | IndexError     \<comment> \<open>an index out of range\<close>
  | LinAlgError    \<comment> \<open>\<^verbatim>\<open>numpy.linalg\<close> on a singular matrix\<close>

definition dot :: "vec \<Rightarrow> vec \<Rightarrow> real" where
  "dot u v = sum_list (map2 (*) u v)"

definition mat_vec :: "mat \<Rightarrow> vec \<Rightarrow> vec" where
  "mat_vec A v = map (\<lambda>r. dot r v) A"

text \<open>\<^verbatim>\<open>A @ B\<close>\<close>
definition matmul :: "mat \<Rightarrow> mat \<Rightarrow> mat" where
  "matmul A B = map (\<lambda>r. map (\<lambda>c. dot r c) (transpose B)) A"

text \<open>\<^verbatim>\<open>c * A\<close> and \<^verbatim>\<open>A / c\<close> for a scalar \<open>c\<close>\<close>
definition scale_vec :: "real \<Rightarrow> vec \<Rightarrow> vec" where
  "scale_vec c v = map (\<lambda>x. c * x) v"

definition scale_mat :: "real \<Rightarrow> mat \<Rightarrow> mat" where
  "scale_mat c A = map (scale_vec c) A"

definition div_mat :: "mat \<Rightarrow> real \<Rightarrow> mat" where
  "div_mat A c = map (map (\<lambda>x. x / c)) A"

text \<open>\<^verbatim>\<open>A[:, j]\<close>\<close>
definition col :: "mat \<Rightarrow> nat \<Rightarrow> vec" where
  "col A j = map (\<lambda>r. r ! j) A"

text \<open>\<^verbatim>\<open>np.concatenate((A, B), axis=1)\<close> for arrays with the same number of rows\<close>
definition hstack :: "mat \<Rightarrow> mat \<Rightarrow> mat" where
  "hstack A B = map2 (@) A B"

definition eye :: "nat \<Rightarrow> mat" where
  "eye n = map (\<lambda>i. map (\<lambda>j. if i = j then 1 else 0) [0..<n]) [0..<n]"

text \<open>An \<open>r\<close> by \<open>c\<close> array.\<close>
definition dims :: "nat \<Rightarrow> nat \<Rightarrow> mat \<Rightarrow> bool" where
  "dims r c A \<longleftrightarrow> length A = r \<and> list_all (\<lambda>row. length row = c) A"

definition cross :: "vec \<Rightarrow> vec \<Rightarrow> vec" where
  "cross a b = [a ! 1 * b ! 2 - a ! 2 * b ! 1,
                a ! 2 * b ! 0 - a ! 0 * b ! 2,
                a ! 0 * b ! 1 - a ! 1 * b ! 0]"

section \<open>Second camera from the fundamental matrix\<close>

text \<open>
  Modelled from the spec: \<^verbatim>\<open>maths.hat_operator\<close>, of the module \<^verbatim>\<open>maths\<close> that
  \<^verbatim>\<open>reconstruction.py\<close> imports, is missing from the sources. The specification describes
  its result as the 3 by 3 skew-symmetric matrix \<open>[e]\<^sub>\<times>\<close> with \<open>[e]\<^sub>\<times> v = e \<times> v\<close> for every
  3-vector \<open>v\<close>. Its argument is the 3 by 1 column that \<^verbatim>\<open>maths.nullspace\<close> returns.
\<close>
definition hat_operator :: "mat \<Rightarrow> mat" where
  "hat_operator e =
     (let e1 = e ! 0 ! 0; e2 = e ! 1 ! 0; e3 = e ! 2 ! 0
      in [[0, - e3, e2],
          [e3, 0, - e1],
          [- e2, e1, 0]])"

text \<open>
  \<^verbatim>\<open>compute_proj_camera(F, i)\<close>. The function \<^verbatim>\<open>maths.nullspace\<close> is missing from the
  sources as well; it is the parameter \<open>nullspace\<close>.
\<close>
definition compute_proj_camera :: "(mat \<Rightarrow> mat) \<Rightarrow> mat \<Rightarrow> 'i \<Rightarrow> mat" where
  "compute_proj_camera nullspace F i =
     (let e = nullspace (transpose F);
          ske = hat_operator e;
          P = hstack (matmul ske F) e
      in P)"

section \<open>Homogeneous and Euclidean coordinates\<close>

text \<open>
  \<^verbatim>\<open>homog(x)\<close>, as \<^verbatim>\<open>resection\<close> calls it on \<^verbatim>\<open>np.asarray\<close> of a Python list of
  observations. The array of an empty list is one-dimensional, and concatenating along
  axis 1 then raises; every other list gains a column of ones.
\<close>
definition homog :: "mat \<Rightarrow> error + mat" where
  "homog x = (if x = [] then Inl AxisError else Inr (map (\<lambda>r. r @ [1]) x))"

text \<open>\<^verbatim>\<open>euclid(x)\<close>: \<^verbatim>\<open>x[:, :-1] / x[:, [-1]]\<close>\<close>
definition euclid :: "mat \<Rightarrow> mat" where
  "euclid x = map (\<lambda>r. map (\<lambda>v. v / last r) (butlast r)) x"

section \<open>Point normalisation\<close>

text \<open>\<^verbatim>\<open>np.mean\<close> and \<^verbatim>\<open>np.std\<close> of a flattened array (the population standard deviation).\<close>

definition np_mean :: "vec \<Rightarrow> real" where
  "np_mean xs = sum_list xs / real (length xs)"

definition np_std :: "vec \<Rightarrow> real" where
  "np_std xs = sqrt (np_mean (map (\<lambda>x. (x - np_mean xs)\<^sup>2) xs))"

text \<open>
  \<^verbatim>\<open>normalize2dpts(pts)\<close>. \<^verbatim>\<open>np.mean(pts[:, :2], axis=0)\<close> is the list of the means of the
  first two columns; \<^verbatim>\<open>np.std(pts[:, :2])\<close> is the standard deviation of all the entries
  of these two columns together.
\<close>
definition normalize2dpts :: "mat \<Rightarrow> mat \<times> mat" where
  "normalize2dpts pts =
     (let mean = [np_mean (col pts 0), np_mean (col pts 1)];
          S = sqrt 2 / np_std (concat (map (take 2) pts));
          T = [[S, 0, - S * mean ! 0],
               [0, S, - S * mean ! 1],
               [0, 0, 1]];
          pts = matmul T (transpose pts)
      in (transpose pts, T))"

text \<open>\<^verbatim>\<open>normalize3dpts(pts)\<close>\<close>
definition normalize3dpts :: "mat \<Rightarrow> mat \<times> mat" where
  "normalize3dpts pts =
     (let mean = [np_mean (col pts 0), np_mean (col pts 1), np_mean (col pts 2)];
          S = sqrt 2 / np_std (concat (map (take 3) pts));
          T = [[S, 0, 0, - S * mean ! 0],
               [0, S, 0, - S * mean ! 1],
               [0, 0, S, - S * mean ! 2],
               [0, 0, 0, 1]];
          pts = matmul T (transpose pts)
      in (transpose pts, T))"

text \<open>
  The mean Euclidean distance from the origin of a set of homogeneous points, the quantity
  that the normalisation is meant to control.
\<close>
definition mean_distance :: "mat \<Rightarrow> real" where
  "mean_distance pts = np_mean (map (\<lambda>r. sqrt (sum_list (map (\<lambda>v. v\<^sup>2) r))) (euclid pts))"

section \<open>Direct linear transform\<close>

text \<open>
  The two rows that one pass of the loop of \<^verbatim>\<open>camera_matrix\<close> writes into \<open>A\<close>, for the
  3D point \<open>X\<close> and the 2D point \<open>(x, y, w)\<close>.
\<close>
definition dlt_rows :: "vec \<Rightarrow> vec \<Rightarrow> mat" where
  "dlt_rows X p =
     (let x = p ! 0; y = p ! 1; w = p ! 2
      in [replicate 4 0 @ scale_vec (- w) X @ scale_vec y X,
          scale_vec w X @ replicate 4 0 @ scale_vec (- x) X])"

text \<open>
  The coefficient matrix: \<^verbatim>\<open>A = np.empty((2*6, 12))\<close>, filled by \<^verbatim>\<open>for i in range(6)\<close>.
  Reading \<^verbatim>\<open>pts3d[i]\<close> or \<^verbatim>\<open>pts2d[i]\<close> beyond the end of the array raises.
\<close>
definition dlt_matrix :: "mat \<Rightarrow> mat \<Rightarrow> error + mat" where
  "dlt_matrix pts3d pts2d =
     (if length pts3d < 6 \<or> length pts2d < 6 then Inl IndexError
      else Inr (concat (map (\<lambda>i. dlt_rows (pts3d ! i) (pts2d ! i)) [0..<6])))"

text \<open>\<^verbatim>\<open>p.reshape((3, 4))\<close> of a vector of 12 entries\<close>
definition reshape34 :: "vec \<Rightarrow> mat" where
  "reshape34 p = [take 4 p, take 4 (drop 4 p), take 4 (drop 8 p)]"

text \<open>
  \<^verbatim>\<open>camera_matrix(pts3d, pts2d)\<close>. The parameter \<open>svd\<close> stands for the library call
  \<^verbatim>\<open>np.linalg.svd\<close> followed by \<^verbatim>\<open>vh.T[:, -1]\<close>: it maps the 12 by 12 matrix \<open>A\<close> to its
  last right singular vector, of 12 entries. Where numpy divides by zero it returns
  infinities or NaN without raising; the model has the real division of HOL there.
\<close>
definition camera_matrix :: "(mat \<Rightarrow> vec) \<Rightarrow> mat \<Rightarrow> mat \<Rightarrow> error + mat" where
  "camera_matrix svd pts3d pts2d =
     (let (pts3d, T1) = normalize3dpts pts3d;
          (pts2d, T2) = normalize2dpts pts2d
      in case dlt_matrix pts3d pts2d of
           Inl err \<Rightarrow> Inl err
         | Inr A \<Rightarrow>
             (let p = svd A;
                  P = reshape34 p;
                  P = matmul (matmul (transpose T2) P) T1;
                  P = div_mat P (last (last P))
              in Inr P))"

section \<open>Robust resection\<close>

record track =
  pt :: vec
  views :: "nat \<rightharpoonup> vec"

text \<open>A track with a triangulated point and one observation, in view 0.\<close>
definition track_at :: "real \<Rightarrow> real \<Rightarrow> real \<Rightarrow> real \<Rightarrow> real \<Rightarrow> track" where
  "track_at X Y Z x y = \<lparr>pt = [X, Y, Z, 1], views = [0 \<mapsto> [x, y]]\<rparr>"

text \<open>The first loop of \<^verbatim>\<open>resection\<close>: the 3D points and the observations in view \<open>i\<close>.\<close>
definition correspondences :: "track list \<Rightarrow> nat \<Rightarrow> mat \<times> mat" where
  "correspondences tracks i =
     (let sel = filter (\<lambda>tk. pt tk ! 3 \<noteq> 0 \<and> i \<in> dom (views tk)) tracks
      in (map pt sel, map (\<lambda>tk. the (views tk i)) sel))"

definition p_conf :: real where
  "p_conf = 999 / 1000"

definition th :: real where
  "th = 1 - cos (4 / 1000)"

text \<open>\<^verbatim>\<open>np.finfo(float).eps\<close>\<close>
definition eps :: real where
  "eps = 1 / 2 ^ 52"

text \<open>
  \<^verbatim>\<open>np.random.choice(range(n), k, replace=False)\<close>. The generator is the parameter \<open>rnd\<close>,
  which gives the sample drawn in each iteration; the library refuses a sample larger than
  the population.
\<close>
definition random_choice :: "(nat \<Rightarrow> nat list) \<Rightarrow> nat \<Rightarrow> nat \<Rightarrow> nat \<Rightarrow> error + nat list" where
  "random_choice rnd it n k = (if n < k then Inl SampleError else Inr (rnd it))"

text \<open>\<^verbatim>\<open>A[idx]\<close> for an array of indices\<close>
definition take_rows :: "mat \<Rightarrow> nat list \<Rightarrow> error + mat" where
  "take_rows A idx =
     (if list_all (\<lambda>j. j < length A) idx then Inr (map (\<lambda>j. A ! j) idx) else Inl IndexError)"

text \<open>
  \<^verbatim>\<open>d = np.sum((euclid(pts2d)-euclid((P@pts3d.T).T))**2, axis=1)\<close> and
  \<^verbatim>\<open>np.where(d < th)[0]\<close>. A point whose homogeneous scale is zero has infinite or NaN
  Euclidean coordinates in numpy, and then \<^verbatim>\<open>d < th\<close> is false.
\<close>
definition inliers_of :: "mat \<Rightarrow> mat \<Rightarrow> mat \<Rightarrow> nat list" where
  "inliers_of P pts3d pts2d =
     (let proj = transpose (matmul P (transpose pts3d));
          d = map2 (\<lambda>u v. sum_list (map2 (\<lambda>a b. (a - b)\<^sup>2) u v)) (euclid pts2d) (euclid proj)
      in filter (\<lambda>j. last (pts2d ! j) \<noteq> 0 \<and> last (proj ! j) \<noteq> 0 \<and> d ! j < th) [0..<length d])"

record ransac_state =
  it :: nat
  max_it :: real
  best_inliers :: "nat list"

text \<open>One pass through the body of the \<^verbatim>\<open>while\<close> loop of \<^verbatim>\<open>resection\<close>.\<close>
definition ransac_body ::
  "(mat \<Rightarrow> vec) \<Rightarrow> (nat \<Rightarrow> nat list) \<Rightarrow> mat \<Rightarrow> mat \<Rightarrow> ransac_state \<Rightarrow> error + ransac_state" where
  "ransac_body svd rnd pts3d pts2d s =
     (let n = length pts3d
      in case random_choice rnd (it s) n 6 of
           Inl err \<Rightarrow> Inl err
         | Inr points \<Rightarrow>
        (case take_rows pts3d points of
           Inl err \<Rightarrow> Inl err
         | Inr sel3d \<Rightarrow>
        (case take_rows pts2d points of
           Inl err \<Rightarrow> Inl err
         | Inr sel2d \<Rightarrow>
        (case camera_matrix svd sel3d sel2d of
           Inl err \<Rightarrow> Inl err
         | Inr P \<Rightarrow>
             (let inliers = inliers_of P pts3d pts2d;
                  best = (if length inliers > length (best_inliers s) then inliers
                          else best_inliers s);
                  fracinliers = real (length best) / real n;
                  pNoOutliers = 1 - fracinliers ^ 6;
                  pNoOutliers = max eps pNoOutliers;
                  pNoOutliers = min (1 - eps) pNoOutliers;
                  budget = min (max_it s) (ln (1 - p_conf) / ln pNoOutliers)
              in Inr \<lparr>it = it s + 1, max_it = budget, best_inliers = best\<rparr>)))))"

text \<open>The loop \<^verbatim>\<open>while it < max_it\<close>.\<close>
function ransac_loop ::
  "(mat \<Rightarrow> vec) \<Rightarrow> (nat \<Rightarrow> nat list) \<Rightarrow> mat \<Rightarrow> mat \<Rightarrow> ransac_state \<Rightarrow> error + ransac_state" where
  "ransac_loop svd rnd pts3d pts2d s =
     (if real (it s) < max_it s
      then (case ransac_body svd rnd pts3d pts2d s of
              Inl err \<Rightarrow> Inl err
            | Inr s' \<Rightarrow> ransac_loop svd rnd pts3d pts2d s')
      else Inr s)"
  by pat_completeness auto
termination
proof (relation "measure (\<lambda>(svd, rnd, pts3d, pts2d, s). nat \<lceil>max_it s\<rceil> - it s)")
  show "wf (measure (\<lambda>(svd, rnd, pts3d, pts2d, s). nat \<lceil>max_it s\<rceil> - it s))"
    by simp
next
  fix svd :: "mat \<Rightarrow> vec" and rnd :: "nat \<Rightarrow> nat list" and pts3d pts2d :: mat
    and s s' :: ransac_state
  assume run: "real (it s) < max_it s" and body: "ransac_body svd rnd pts3d pts2d s = Inr s'"
  from body have step: "it s' = it s + 1" and shrink: "max_it s' \<le> max_it s"
    by (auto simp: ransac_body_def Let_def split: sum.splits)
  from run have "it s < nat \<lceil>max_it s\<rceil>"
    by linarith
  moreover from shrink have "nat \<lceil>max_it s'\<rceil> \<le> nat \<lceil>max_it s\<rceil>"
    by (intro nat_mono ceiling_mono)
  ultimately have "nat \<lceil>max_it s'\<rceil> - it s' < nat \<lceil>max_it s\<rceil> - it s"
    using step by linarith
  then show "((svd, rnd, pts3d, pts2d, s'), (svd, rnd, pts3d, pts2d, s))
      \<in> measure (\<lambda>(svd, rnd, pts3d, pts2d, s). nat \<lceil>max_it s\<rceil> - it s)"
    by simp
qed

text \<open>
  \<^verbatim>\<open>resection(tracks, i)\<close>. The debugging output is left out. Indexing with
  \<^verbatim>\<open>best_inliers\<close>, whose members come from \<^verbatim>\<open>np.where\<close>, cannot leave the array.
\<close>
definition resection ::
  "(mat \<Rightarrow> vec) \<Rightarrow> (nat \<Rightarrow> nat list) \<Rightarrow> track list \<Rightarrow> nat \<Rightarrow> error + mat" where
  "resection svd rnd tracks i =
     (let (pts3d, pts2d) = correspondences tracks i
      in case homog pts2d of
           Inl err \<Rightarrow> Inl err
         | Inr pts2d \<Rightarrow>
        (case ransac_loop svd rnd pts3d pts2d \<lparr>it = 0, max_it = 1000, best_inliers = []\<rparr> of
           Inl err \<Rightarrow> Inl err
         | Inr s \<Rightarrow>
             if length (best_inliers s) < 6 then Inl InlierError
             else camera_matrix svd (map (\<lambda>j. pts3d ! j) (best_inliers s))
                                    (map (\<lambda>j. pts2d ! j) (best_inliers s))))"

section \<open>Affine upgrade\<close>

text \<open>
  \<^verbatim>\<open>transform(aff_hom, Xprj, cams_pr)\<close>. The parameter \<open>linalg_inv\<close> stands for
  \<^verbatim>\<open>np.linalg.inv\<close>, which raises on a singular matrix; the list comprehension calls it
  once for each camera, so not at all when there is no camera.
\<close>
definition transform ::
  "(mat \<Rightarrow> mat option) \<Rightarrow> mat \<Rightarrow> mat \<Rightarrow> mat list \<Rightarrow> error + (mat \<times> mat list)" where
  "transform linalg_inv aff_hom Xprj cams_pr =
     (let Xaff = matmul aff_hom Xprj;
          Xaff = map (\<lambda>row. map2 (/) row (Xaff ! 3)) Xaff
      in if cams_pr = [] then Inr (Xaff, [])
         else (case linalg_inv aff_hom of
                 None \<Rightarrow> Inl LinAlgError
               | Some Hi \<Rightarrow> Inr (Xaff, map (\<lambda>cam. matmul cam Hi) cams_pr)))"

section \<open>Camera factorisation\<close>

text \<open>\<^verbatim>\<open>np.flipud(A)\<close> and \<^verbatim>\<open>A[:, ::-1]\<close>\<close>
definition flipud :: "mat \<Rightarrow> mat" where
  "flipud A = rev A"

definition fliplr :: "mat \<Rightarrow> mat" where
  "fliplr A = map rev A"

text \<open>
  \<^verbatim>\<open>RQ_factorization(A)\<close>. The parameter \<open>qr\<close> stands for \<^verbatim>\<open>np.linalg.qr\<close>.
\<close>
definition RQ_factorization :: "(mat \<Rightarrow> mat \<times> mat) \<Rightarrow> mat \<Rightarrow> mat \<times> mat" where
  "RQ_factorization qr A =
     (let (Q, R) = qr (transpose (flipud A));
          R = flipud (transpose R);
          Q = transpose Q
      in (fliplr R, flipud Q))"

text \<open>\<^verbatim>\<open>np.diag\<close> of a square matrix and of a vector\<close>
definition diag_of :: "mat \<Rightarrow> vec" where
  "diag_of A = map (\<lambda>i. A ! i ! i) [0..<length A]"

definition diag_mat :: "vec \<Rightarrow> mat" where
  "diag_mat v = map (\<lambda>i. map (\<lambda>j. if i = j then v ! i else 0) [0..<length v]) [0..<length v]"

text \<open>\<^verbatim>\<open>np.linalg.det\<close> of a 3 by 3 matrix\<close>
definition det3 :: "mat \<Rightarrow> real" where
  "det3 A =
     A ! 0 ! 0 * (A ! 1 ! 1 * A ! 2 ! 2 - A ! 1 ! 2 * A ! 2 ! 1)
   - A ! 0 ! 1 * (A ! 1 ! 0 * A ! 2 ! 2 - A ! 1 ! 2 * A ! 2 ! 0)
   + A ! 0 ! 2 * (A ! 1 ! 0 * A ! 2 ! 1 - A ! 1 ! 1 * A ! 2 ! 0)"

text \<open>
  \<^verbatim>\<open>np.linalg.solve(K, b)\<close> for a 3 by 3 matrix: the solution of \<open>K t = b\<close>, here by
  Cramer's rule; the library raises on a singular matrix.
\<close>
definition replace_col :: "mat \<Rightarrow> nat \<Rightarrow> vec \<Rightarrow> mat" where
  "replace_col A j b = map2 (\<lambda>row v. row[j := v]) A b"

definition solve3 :: "mat \<Rightarrow> vec \<Rightarrow> error + vec" where
  "solve3 K b =
     (if det3 K = 0 then Inl LinAlgError
      else Inr (map (\<lambda>j. det3 (replace_col K j b) / det3 K) [0..<3]))"

text \<open>\<^verbatim>\<open>KRt_from_P(P)\<close>\<close>
definition KRt_from_P :: "(mat \<Rightarrow> mat \<times> mat) \<Rightarrow> mat \<Rightarrow> error + (mat \<times> mat \<times> vec)" where
  "KRt_from_P qr P =
     (let (K, R) = RQ_factorization qr (map (take 3) P);
          T = diag_mat (map sgn (diag_of K));
          K = matmul K T;
          R = matmul T R
      in case solve3 K (col P 3) of
           Inl err \<Rightarrow> Inl err
         | Inr t \<Rightarrow>
             (let (R, t) = (if det3 R < 0 then (scale_mat (- 1) R, scale_vec (- 1) t) else (R, t));
                  K = div_mat K (K ! 2 ! 2)
              in Inr (K, R, t)))"

text \<open>The properties of the factors: an upper-triangular matrix, an orthogonal matrix.\<close>
definition upper_triangular :: "mat \<Rightarrow> bool" where
  "upper_triangular A \<longleftrightarrow> list_all (\<lambda>i. list_all (\<lambda>j. A ! i ! j = 0) [0..<i]) [0..<length A]"

definition orthogonal :: "mat \<Rightarrow> bool" where
  "orthogonal R \<longleftrightarrow>
     matmul (transpose R) R = eye (length R) \<and> matmul R (transpose R) = eye (length R)"

section \<open>Properties of the second camera\<close>

lemma transpose_3x3:
  "transpose [[a, b, c], [d, e, f], [g, h, k]] = [[a, d, g], [b, e, h], [c, f, k]]"
  by simp

lemma hat_operator_cross:
  "mat_vec (hat_operator [[e1], [e2], [e3]]) [v1, v2, v3] = cross [e1, e2, e3] [v1, v2, v3]"
  by (simp add: hat_operator_def mat_vec_def dot_def cross_def)

lemma hat_operator_skew:
  "transpose (hat_operator [[e1], [e2], [e3]]) = scale_mat (- 1) (hat_operator [[e1], [e2], [e3]])"
  by (simp add: hat_operator_def scale_mat_def scale_vec_def)

text \<open>
  Claim C10: the result of \<^verbatim>\<open>compute_proj_camera\<close> does not depend on its second
  argument, the view index.
\<close>
theorem compute_proj_camera_ignores_view:
  "compute_proj_camera nullspace F i = compute_proj_camera nullspace F i'"
  by (simp add: compute_proj_camera_def)

text \<open>
  Claim C3: for a 3 by 3 fundamental matrix \<open>F\<close> of rank 2, for which \<^verbatim>\<open>maths.nullspace\<close>
  returns one column \<open>e\<close>, a generator of the left null space of \<open>F\<close>,
  \<^verbatim>\<open>compute_proj_camera\<close> returns the 3 by 4 matrix whose left 3 by 3 block is
  \<open>[e]\<^sub>\<times> F\<close> and whose fourth column is \<open>e\<close>, where \<open>[e]\<^sub>\<times>\<close> is skew-symmetric and
  \<open>[e]\<^sub>\<times> v = e \<times> v\<close> for every 3-vector \<open>v\<close>.
\<close>
theorem compute_proj_camera_closed_form:
  assumes F: "F = [[f11, f12, f13], [f21, f22, f23], [f31, f32, f33]]"
    and e: "nullspace (transpose F) = [[e1], [e2], [e3]]"
    and nz: "[e1, e2, e3] \<noteq> [0, 0, 0]"
    and null: "mat_vec (transpose F) [e1, e2, e3] = [0, 0, 0]"
  shows "compute_proj_camera nullspace F i = hstack (matmul (hat_operator [[e1], [e2], [e3]]) F) [[e1], [e2], [e3]]
       \<and> dims 3 4 (compute_proj_camera nullspace F i)
       \<and> map (take 3) (compute_proj_camera nullspace F i) = matmul (hat_operator [[e1], [e2], [e3]]) F
       \<and> col (compute_proj_camera nullspace F i) 3 = [e1, e2, e3]
       \<and> col (compute_proj_camera nullspace F i) 3 \<noteq> [0, 0, 0]
       \<and> matmul [[e1, e2, e3]] F = [[0, 0, 0]]
       \<and> (\<forall>v1 v2 v3. mat_vec (hat_operator [[e1], [e2], [e3]]) [v1, v2, v3] = cross [e1, e2, e3] [v1, v2, v3])
       \<and> transpose (hat_operator [[e1], [e2], [e3]]) = scale_mat (- 1) (hat_operator [[e1], [e2], [e3]])"
proof -
  let ?P = "compute_proj_camera nullspace F i"
  let ?e = "[[e1], [e2], [e3]]"
  have P: "?P = hstack (matmul (hat_operator ?e) F) ?e"
    by (simp add: compute_proj_camera_def e Let_def)
  have shape: "matmul (hat_operator ?e) F =
      [[- e3 * f21 + e2 * f31, - e3 * f22 + e2 * f32, - e3 * f23 + e2 * f33],
       [e3 * f11 - e1 * f31, e3 * f12 - e1 * f32, e3 * f13 - e1 * f33],
       [- e2 * f11 + e1 * f21, - e2 * f12 + e1 * f22, - e2 * f13 + e1 * f23]]"
    by (simp add: F matmul_def hat_operator_def dot_def)
  have d: "dims 3 4 ?P"
    by (simp add: P shape hstack_def dims_def)
  have left: "map (take 3) ?P = matmul (hat_operator ?e) F"
    by (simp add: P shape hstack_def)
  have c: "col ?P 3 = [e1, e2, e3]"
    by (simp add: P shape hstack_def col_def)
  have l: "matmul [[e1, e2, e3]] F = [[0, 0, 0]]"
    using null by (simp add: F matmul_def mat_vec_def dot_def mult.commute)
  show ?thesis
    using P d left c nz l hat_operator_cross hat_operator_skew by simp
qed

text \<open>The theorem at the fundamental matrix \<open>[e]\<^sub>\<times>\<close> of \<open>e = (1, 0, 0)\<close>.\<close>
theorem compute_proj_camera_closed_form_witness:
  "mat_vec (transpose [[0, 0, 0], [0, 0, - 1], [0, 1, 0]]) [1, 0, 0] = [0, 0, 0]
   \<and> compute_proj_camera (\<lambda>M. [[1], [0], [0]]) [[0, 0, 0], [0, 0, - 1], [0, 1, 0]] (2 :: nat)
       = [[0, 0, 0, 1], [0, - 1, 0, 0], [0, 0, - 1, 0]]
   \<and> col (compute_proj_camera (\<lambda>M. [[1], [0], [0]]) [[0, 0, 0], [0, 0, - 1], [0, 1, 0]] (2 :: nat)) 3
       = [1, 0, 0]
   \<and> matmul [[1, 0, 0]] [[0, 0, 0], [0, 0, - 1], [0, 1, 0]] = [[0, 0, 0]]"
proof -
  let ?F = "[[0, 0, 0], [0, 0, - 1], [0, 1, 0 :: real]]"
  let ?ns = "\<lambda>M :: mat. [[1], [0], [0 :: real]]"
  have h1: "?F = [[0, 0, 0], [0, 0, - 1], [0, 1, 0]]" by simp
  have h2: "?ns (transpose ?F) = [[1], [0], [0]]" by simp
  have h3: "[1, 0, 0] \<noteq> [0, 0, 0 :: real]" by simp
  have h4: "mat_vec (transpose ?F) [1, 0, 0] = [0, 0, 0]"
    by (simp add: mat_vec_def dot_def)
  note t = compute_proj_camera_closed_form [OF h1 h2 h3 h4, of "2 :: nat"]
  have v: "hstack (matmul (hat_operator [[1], [0], [0]]) ?F) [[1], [0], [0]]
      = [[0, 0, 0, 1], [0, - 1, 0, 0], [0, 0, - 1, 0]]"
    by (simp add: matmul_def hat_operator_def hstack_def dot_def)
  from t v h4 show ?thesis by (simp add: col_def)
qed

section \<open>The coefficient matrix\<close>

lemma upt6: "[0..<6] = [0, 1, 2, 3, 4, 5]"
  by (simp add: upt_rec)

text \<open>
  Claim C1: the coefficient matrix of \<^verbatim>\<open>camera_matrix\<close> should hold two rows for every
  supplied correspondence. On the code it holds the twelve rows of the first six
  correspondences, whatever follows them: further correspondences only enter the
  normalising transforms.
\<close>
theorem dlt_matrix_first_six_only:
  "dlt_matrix (X1 # X2 # X3 # X4 # X5 # X6 # more3d) (x1 # x2 # x3 # x4 # x5 # x6 # more2d)
     = Inr (concat [dlt_rows X1 x1, dlt_rows X2 x2, dlt_rows X3 x3,
                    dlt_rows X4 x4, dlt_rows X5 x5, dlt_rows X6 x6])
   \<and> length (concat [dlt_rows X1 x1, dlt_rows X2 x2, dlt_rows X3 x3,
                      dlt_rows X4 x4, dlt_rows X5 x5, dlt_rows X6 x6]) = 12"
  by (simp add: dlt_matrix_def upt6 dlt_rows_def Let_def)

section \<open>Normalised points\<close>

lemma transpose_rect:
  assumes "\<forall>p \<in> set pts. length p = k" and "0 < k"
  shows "transpose (transpose pts) = pts"
proof -
  have "map length pts = replicate (length pts) k"
    using assms(1) by (induction pts) auto
  then have "sorted (rev (map length pts))"
    by (simp add: sorted_replicate)
  then have "transpose (transpose pts) = takeWhile (\<lambda>x. x \<noteq> []) pts"
    by (rule transpose_transpose)
  also have "\<dots> = pts"
    using assms by (intro takeWhile_eq_all_conv[THEN iffD2]) auto
  finally show ?thesis .
qed

lemma transpose_rows3:
  "transpose [map f xs, map g xs, map h xs] = map (\<lambda>x. [f x, g x, h x]) xs"
  by (induction xs) auto

lemma transpose_rows4:
  "transpose [map f xs, map g xs, map h xs, map k xs] = map (\<lambda>x. [f x, g x, h x, k x]) xs"
  by (induction xs) auto

lemma normalised_rows3:
  assumes "\<forall>p \<in> set pts. length p = k" and "0 < k"
  shows "transpose (matmul [r1, r2, r3] (transpose pts)) = map (mat_vec [r1, r2, r3]) pts"
  by (simp add: matmul_def transpose_rect[OF assms] transpose_rows3 mat_vec_def)

lemma normalised_rows4:
  assumes "\<forall>p \<in> set pts. length p = k" and "0 < k"
  shows "transpose (matmul [r1, r2, r3, r4] (transpose pts)) = map (mat_vec [r1, r2, r3, r4]) pts"
  by (simp add: matmul_def transpose_rect[OF assms] transpose_rows4 mat_vec_def)

lemma sum_list_centred:
  "sum_list (map (\<lambda>x. c * (f x - m)) xs) = c * (sum_list (map f xs) - real (length xs) * m)"
  by (induction xs) (simp_all add: algebra_simps)

lemma mean_centred:
  assumes "xs \<noteq> []"
  shows "np_mean (map (\<lambda>x. c * (f x - np_mean (map f xs))) xs) = 0"
  using assms by (simp add: np_mean_def sum_list_centred)

lemma np_std_nonneg: "0 \<le> np_std xs"
  by (auto simp: np_std_def np_mean_def intro!: divide_nonneg_nonneg sum_list_nonneg)

lemma np_std_Nil: "np_std [] = 0"
  by (simp add: np_std_def np_mean_def)

lemma normalize2dpts_unit_scale:
  assumes wf: "\<forall>p \<in> set pts. \<exists>x y. p = [x, y, 1]"
  defines "s \<equiv> sqrt 2 / np_std (concat (map (take 2) pts))"
  defines "mx \<equiv> np_mean (col pts 0)" and "my \<equiv> np_mean (col pts 1)"
  shows "normalize2dpts pts =
           (map (\<lambda>p. [s * (p ! 0 - mx), s * (p ! 1 - my), 1]) pts,
            [[s, 0, - s * mx], [0, s, - s * my], [0, 0, 1]])"
proof -
  have len: "\<forall>p \<in> set pts. length p = 3"
    using wf by auto
  have "map (mat_vec [[s, 0, - s * mx], [0, s, - s * my], [0, 0, 1]]) pts
      = map (\<lambda>p. [s * (p ! 0 - mx), s * (p ! 1 - my), 1]) pts"
  proof (rule map_cong[OF refl])
    fix p assume "p \<in> set pts"
    with wf obtain x y where "p = [x, y, 1]" by blast
    then show "mat_vec [[s, 0, - s * mx], [0, s, - s * my], [0, 0, 1]] p
        = [s * (p ! 0 - mx), s * (p ! 1 - my), 1]"
      by (simp add: mat_vec_def dot_def algebra_simps)
  qed
  then show ?thesis
    unfolding normalize2dpts_def Let_def s_def mx_def my_def
    by (simp add: normalised_rows3[OF len])
qed

lemma normalize3dpts_unit_scale:
  assumes wf: "\<forall>p \<in> set pts. \<exists>x y z. p = [x, y, z, 1]"
  defines "s \<equiv> sqrt 2 / np_std (concat (map (take 3) pts))"
  defines "mx \<equiv> np_mean (col pts 0)" and "my \<equiv> np_mean (col pts 1)"
    and "mz \<equiv> np_mean (col pts 2)"
  shows "normalize3dpts pts =
           (map (\<lambda>p. [s * (p ! 0 - mx), s * (p ! 1 - my), s * (p ! 2 - mz), 1]) pts,
            [[s, 0, 0, - s * mx], [0, s, 0, - s * my], [0, 0, s, - s * mz], [0, 0, 0, 1]])"
proof -
  have len: "\<forall>p \<in> set pts. length p = 4"
    using wf by auto
  have "map (mat_vec [[s, 0, 0, - s * mx], [0, s, 0, - s * my], [0, 0, s, - s * mz], [0, 0, 0, 1]]) pts
      = map (\<lambda>p. [s * (p ! 0 - mx), s * (p ! 1 - my), s * (p ! 2 - mz), 1]) pts"
  proof (rule map_cong[OF refl])
    fix p assume "p \<in> set pts"
    with wf obtain x y z where "p = [x, y, z, 1]" by blast
    then show "mat_vec [[s, 0, 0, - s * mx], [0, s, 0, - s * my], [0, 0, s, - s * mz], [0, 0, 0, 1]] p
        = [s * (p ! 0 - mx), s * (p ! 1 - my), s * (p ! 2 - mz), 1]"
      by (simp add: mat_vec_def dot_def algebra_simps)
  qed
  then show ?thesis
    unfolding normalize3dpts_def Let_def s_def mx_def my_def mz_def
    by (simp add: normalised_rows4[OF len])
qed

text \<open>
  Claim C8, as amended: for every 2D (resp. 3D) point set of homogeneous scale 1 with nonzero
  coordinate standard deviation, the transform returned by \<^verbatim>\<open>normalize2dpts\<close> (resp.
  \<^verbatim>\<open>normalize3dpts\<close>) is the similarity that scales by \<open>s = sqrt 2 / std\<close>, with \<open>std\<close> the
  standard deviation of all the coordinates, and translates by minus the scaled centroid;
  the returned points are the images of the given ones under it, and their coordinate-wise
  mean is 0.
\<close>
theorem normalisation_similarity:
  assumes wf2: "\<forall>p \<in> set pts2d. \<exists>x y. p = [x, y, 1]"
    and std2: "np_std (concat (map (take 2) pts2d)) \<noteq> 0"
    and wf3: "\<forall>p \<in> set pts3d. \<exists>x y z. p = [x, y, z, 1]"
    and std3: "np_std (concat (map (take 3) pts3d)) \<noteq> 0"
    and s2: "s2 = sqrt 2 / np_std (concat (map (take 2) pts2d))"
    and s3: "s3 = sqrt 2 / np_std (concat (map (take 3) pts3d))"
  shows "0 < s2
       \<and> snd (normalize2dpts pts2d) =
           [[s2, 0, - s2 * np_mean (col pts2d 0)],
            [0, s2, - s2 * np_mean (col pts2d 1)],
            [0, 0, 1]]
       \<and> fst (normalize2dpts pts2d) = map (mat_vec (snd (normalize2dpts pts2d))) pts2d
       \<and> np_mean (col (fst (normalize2dpts pts2d)) 0) = 0
       \<and> np_mean (col (fst (normalize2dpts pts2d)) 1) = 0
       \<and> 0 < s3
       \<and> snd (normalize3dpts pts3d) =
           [[s3, 0, 0, - s3 * np_mean (col pts3d 0)],
            [0, s3, 0, - s3 * np_mean (col pts3d 1)],
            [0, 0, s3, - s3 * np_mean (col pts3d 2)],
            [0, 0, 0, 1]]
       \<and> fst (normalize3dpts pts3d) = map (mat_vec (snd (normalize3dpts pts3d))) pts3d
       \<and> np_mean (col (fst (normalize3dpts pts3d)) 0) = 0
       \<and> np_mean (col (fst (normalize3dpts pts3d)) 1) = 0
       \<and> np_mean (col (fst (normalize3dpts pts3d)) 2) = 0"
proof -
  have ne2: "pts2d \<noteq> []" and ne3: "pts3d \<noteq> []"
    using std2 std3 by (auto simp: np_std_Nil)
  have pos2: "0 < s2"
    using std2 np_std_nonneg[of "concat (map (take 2) pts2d)"] by (simp add: s2)
  have pos3: "0 < s3"
    using std3 np_std_nonneg[of "concat (map (take 3) pts3d)"] by (simp add: s3)
  note n2 = normalize2dpts_unit_scale[OF wf2, folded s2]
  note n3 = normalize3dpts_unit_scale[OF wf3, folded s3]
  have len2: "\<forall>p \<in> set pts2d. length p = 3" using wf2 by auto
  have len3: "\<forall>p \<in> set pts3d. length p = 4" using wf3 by auto
  have r2: "fst (normalize2dpts pts2d) = map (mat_vec (snd (normalize2dpts pts2d))) pts2d"
    by (simp add: normalize2dpts_def Let_def normalised_rows3[OF len2])
  have r3: "fst (normalize3dpts pts3d) = map (mat_vec (snd (normalize3dpts pts3d))) pts3d"
    by (simp add: normalize3dpts_def Let_def normalised_rows4[OF len3])
  have m20: "np_mean (col (fst (normalize2dpts pts2d)) 0) = 0"
    using mean_centred[OF ne2, of s2 "\<lambda>p. p ! 0"] by (simp add: n2 col_def comp_def)
  have m21: "np_mean (col (fst (normalize2dpts pts2d)) 1) = 0"
    using mean_centred[OF ne2, of s2 "\<lambda>p. p ! 1"] by (simp add: n2 col_def comp_def)
  have m30: "np_mean (col (fst (normalize3dpts pts3d)) 0) = 0"
    using mean_centred[OF ne3, of s3 "\<lambda>p. p ! 0"] by (simp add: n3 col_def comp_def)
  have m31: "np_mean (col (fst (normalize3dpts pts3d)) 1) = 0"
    using mean_centred[OF ne3, of s3 "\<lambda>p. p ! 1"] by (simp add: n3 col_def comp_def)
  have m32: "np_mean (col (fst (normalize3dpts pts3d)) 2) = 0"
    using mean_centred[OF ne3, of s3 "\<lambda>p. p ! 2"] by (simp add: n3 col_def comp_def)
  show ?thesis
    using pos2 pos3 r2 r3 m20 m21 m30 m31 m32 by (simp add: n2 n3)
qed

lemma std_ex2: "np_std (concat (map (take 2) [[0, 0, 1], [2, 2, 1]])) = 1"
  by (simp add: np_std_def np_mean_def)

lemma std_ex3: "np_std (concat (map (take 3) [[0, 0, 0, 1], [2, 2, 2, 1]])) = 1"
  by (simp add: np_std_def np_mean_def)

lemma norm_ex2:
  "normalize2dpts [[0, 0, 1], [2, 2, 1]] =
     ([[- sqrt 2, - sqrt 2, 1], [sqrt 2, sqrt 2, 1]],
      [[sqrt 2, 0, - sqrt 2], [0, sqrt 2, - sqrt 2], [0, 0, 1]])"
  using std_ex2
  by (simp add: normalize2dpts_def Let_def col_def np_mean_def matmul_def dot_def)

text \<open>The theorem at the points \<open>(0, 0)\<close>, \<open>(2, 2)\<close> and \<open>(0, 0, 0)\<close>, \<open>(2, 2, 2)\<close>.\<close>
theorem normalisation_similarity_witness:
  "np_std (concat (map (take 2) [[0, 0, 1], [2, 2, 1]])) \<noteq> 0
   \<and> np_std (concat (map (take 3) [[0, 0, 0, 1], [2, 2, 2, 1]])) \<noteq> 0
   \<and> snd (normalize2dpts [[0, 0, 1], [2, 2, 1]]) =
        [[sqrt 2, 0, - sqrt 2], [0, sqrt 2, - sqrt 2], [0, 0, 1]]
   \<and> np_mean (col (fst (normalize2dpts [[0, 0, 1], [2, 2, 1]])) 0) = 0
   \<and> np_mean (col (fst (normalize2dpts [[0, 0, 1], [2, 2, 1]])) 1) = 0
   \<and> snd (normalize3dpts [[0, 0, 0, 1], [2, 2, 2, 1]]) =
        [[sqrt 2, 0, 0, - sqrt 2], [0, sqrt 2, 0, - sqrt 2], [0, 0, sqrt 2, - sqrt 2], [0, 0, 0, 1]]
   \<and> np_mean (col (fst (normalize3dpts [[0, 0, 0, 1], [2, 2, 2, 1]])) 2) = 0"
proof -
  let ?p2 = "[[0, 0, 1], [2, 2, 1 :: real]]"
  let ?p3 = "[[0, 0, 0, 1], [2, 2, 2, 1 :: real]]"
  have wf2: "\<forall>p \<in> set ?p2. \<exists>x y. p = [x, y, 1]" by simp
  have wf3: "\<forall>p \<in> set ?p3. \<exists>x y z. p = [x, y, z, 1]" by simp
  have n2: "np_std (concat (map (take 2) ?p2)) \<noteq> 0" using std_ex2 by simp
  have n3: "np_std (concat (map (take 3) ?p3)) \<noteq> 0" using std_ex3 by simp
  have s2: "sqrt 2 = sqrt 2 / np_std (concat (map (take 2) ?p2))" using std_ex2 by simp
  have s3: "sqrt 2 = sqrt 2 / np_std (concat (map (take 3) ?p3))" using std_ex3 by simp
  have m2: "np_mean (col ?p2 0) = 1" "np_mean (col ?p2 1) = 1"
    by (simp_all add: np_mean_def col_def)
  have m3: "np_mean (col ?p3 0) = 1" "np_mean (col ?p3 1) = 1" "np_mean (col ?p3 2) = 1"
    by (simp_all add: np_mean_def col_def)
  note t = normalisation_similarity [OF wf2 n2 wf3 n3 s2 s3]
  from t n2 n3 m2 m3 show ?thesis
    by (simp add: col_def mat_vec_def dot_def np_mean_def)
qed

text \<open>
  Claim C8 as stated fails: the points \<open>(0, 0)\<close> and \<open>(2, 2)\<close> are normalised to points at
  mean distance 2 from the origin, not \<open>sqrt 2\<close>; and the same two points written with
  homogeneous scale 2 are normalised to points whose first coordinates have mean \<open>- sqrt 2\<close>.
\<close>
theorem normalisation_mean_distance_counterexample:
  "np_std (concat (map (take 2) [[0, 0, 1], [2, 2, 1]])) \<noteq> 0
   \<and> mean_distance (fst (normalize2dpts [[0, 0, 1], [2, 2, 1]])) = 2
   \<and> mean_distance (fst (normalize2dpts [[0, 0, 1], [2, 2, 1]])) \<noteq> sqrt 2
   \<and> np_std (concat (map (take 2) [[0, 0, 2], [2, 2, 2]])) \<noteq> 0
   \<and> np_mean (col (fst (normalize2dpts [[0, 0, 2], [2, 2, 2]])) 0) = - sqrt 2
   \<and> np_mean (col (fst (normalize2dpts [[0, 0, 2], [2, 2, 2]])) 0) \<noteq> 0"
proof -
  have d: "mean_distance (fst (normalize2dpts [[0, 0, 1], [2, 2, 1]])) = 2"
    by (simp add: norm_ex2 mean_distance_def euclid_def np_mean_def)
  have lt: "sqrt 2 \<noteq> 2"
  proof
    assume "sqrt 2 = 2"
    then have "(sqrt 2)\<^sup>2 = 2\<^sup>2" by simp
    then show False by simp
  qed
  have std': "np_std (concat (map (take 2) [[0, 0, 2], [2, 2, 2]])) = 1"
    by (simp add: np_std_def np_mean_def)
  have n': "normalize2dpts [[0, 0, 2], [2, 2, 2]] =
     ([[- (2 * sqrt 2), - (2 * sqrt 2), 2], [0, 0, 2]],
      [[sqrt 2, 0, - sqrt 2], [0, sqrt 2, - sqrt 2], [0, 0, 1]])"
    using std'
    by (simp add: normalize2dpts_def Let_def col_def np_mean_def matmul_def dot_def)
  have m: "np_mean (col (fst (normalize2dpts [[0, 0, 2], [2, 2, 2]])) 0) = - sqrt 2"
    by (simp add: n' col_def np_mean_def)
  show ?thesis
    using d lt m std_ex2 std' by simp
qed

section \<open>The camera matrix of the direct linear transform\<close>

lemma list12:
  assumes "length p = 12"
  obtains p0 p1 p2 p3 p4 p5 p6 p7 p8 p9 p10 p11 :: 'a
  where "p = [p0, p1, p2, p3, p4, p5, p6, p7, p8, p9, p10, p11]"
  using assms by (auto simp: numeral_eq_Suc length_Suc_conv)

lemma length_normalize3dpts:
  assumes "\<forall>p \<in> set pts. length p = 4"
  shows "length (fst (normalize3dpts pts)) = length pts"
  by (simp add: normalize3dpts_def Let_def normalised_rows4[OF assms])

lemma length_normalize2dpts:
  assumes "\<forall>p \<in> set pts. length p = 3"
  shows "length (fst (normalize2dpts pts)) = length pts"
  by (simp add: normalize2dpts_def Let_def normalised_rows3[OF assms])

lemma snd_normalize2dpts:
  "\<exists>s a b. snd (normalize2dpts pts) = [[s, 0, a], [0, s, b], [0, 0, 1]]"
  by (simp add: normalize2dpts_def Let_def)

lemma snd_normalize3dpts:
  "\<exists>s a b c. snd (normalize3dpts pts) = [[s, 0, 0, a], [0, s, 0, b], [0, 0, s, c], [0, 0, 0, 1]]"
  by (simp add: normalize3dpts_def Let_def)

lemma denormalise_shape:
  assumes "length p = 12"
  shows "\<exists>a0 a1 a2 a3 b0 b1 b2 b3 c0 c1 c2 c3.
           matmul (matmul (transpose (snd (normalize2dpts pts2d))) (reshape34 p))
                  (snd (normalize3dpts pts3d))
           = [[a0, a1, a2, a3], [b0, b1, b2, b3], [c0, c1, c2, c3]]"
proof -
  obtain s a b where T2: "snd (normalize2dpts pts2d) = [[s, 0, a], [0, s, b], [0, 0, 1]]"
    using snd_normalize2dpts by blast
  obtain s' a' b' c' where T1: "snd (normalize3dpts pts3d)
      = [[s', 0, 0, a'], [0, s', 0, b'], [0, 0, s', c'], [0, 0, 0, 1]]"
    using snd_normalize3dpts by blast
  from assms obtain p0 p1 p2 p3 p4 p5 p6 p7 p8 p9 p10 p11
    where p: "p = [p0, p1, p2, p3, p4, p5, p6, p7, p8, p9, p10, p11]"
    by (rule list12)
  show ?thesis
    by (simp add: T1 T2 p reshape34_def matmul_def)
qed

text \<open>
  Claim C9: for every successful call to \<^verbatim>\<open>camera_matrix\<close> (at least six correspondences of
  the right shape, the singular vector of 12 entries, and a final division by a nonzero
  number), the returned matrix is \<open>T2\<^sup>T P\<^sub>n T1\<close> divided by its bottom-right entry, where
  \<open>T1\<close> and \<open>T2\<close> are the 3D and 2D normalising transforms and \<open>P\<^sub>n\<close> is the reshaped
  singular vector; so its bottom-right entry is 1.
\<close>
theorem camera_matrix_denormalised:
  assumes wf3: "\<forall>p \<in> set pts3d. length p = 4" and wf2: "\<forall>p \<in> set pts2d. length p = 3"
    and n3: "6 \<le> length pts3d" and n2: "6 \<le> length pts2d"
    and svd: "\<forall>M. length (svd M) = 12"
    and A: "A = concat (map (\<lambda>i. dlt_rows (fst (normalize3dpts pts3d) ! i)
                                          (fst (normalize2dpts pts2d) ! i)) [0..<6])"
    and P0: "P0 = matmul (matmul (transpose (snd (normalize2dpts pts2d))) (reshape34 (svd A)))
                         (snd (normalize3dpts pts3d))"
    and nz: "P0 ! 2 ! 3 \<noteq> 0"
  shows "camera_matrix svd pts3d pts2d = Inr (div_mat P0 (P0 ! 2 ! 3))
       \<and> dims 3 4 (div_mat P0 (P0 ! 2 ! 3))
       \<and> div_mat P0 (P0 ! 2 ! 3) ! 2 ! 3 = 1"
proof -
  have dlt: "dlt_matrix (fst (normalize3dpts pts3d)) (fst (normalize2dpts pts2d)) = Inr A"
    using n3 n2
    by (simp add: dlt_matrix_def A length_normalize3dpts[OF wf3] length_normalize2dpts[OF wf2])
  from svd have "length (svd A) = 12" by simp
  from denormalise_shape[OF this, of pts2d pts3d] P0
  obtain a0 a1 a2 a3 b0 b1 b2 b3 c0 c1 c2 c3
    where shape: "P0 = [[a0, a1, a2, a3], [b0, b1, b2, b3], [c0, c1, c2, c3]]"
    by auto
  have "camera_matrix svd pts3d pts2d = Inr (div_mat P0 (last (last P0)))"
    by (simp add: camera_matrix_def case_prod_beta dlt Let_def P0)
  moreover have "last (last P0) = P0 ! 2 ! 3"
    by (simp add: shape)
  moreover have "dims 3 4 (div_mat P0 (P0 ! 2 ! 3))"
    by (simp add: shape dims_def div_mat_def)
  moreover have "div_mat P0 (P0 ! 2 ! 3) ! 2 ! 3 = 1"
    using nz by (simp add: shape div_mat_def)
  ultimately show ?thesis by simp
qed

text \<open>The theorem at six correspondences centred at the origin.\<close>
theorem camera_matrix_denormalised_witness:
  "map_sum id (\<lambda>P. (dims 3 4 P, P ! 2 ! 3))
     (camera_matrix (\<lambda>M. [0, 0, 0, 0, 0, 0, 0, 0, 0, 0, 0, 1])
        [[1, 0, 0, 1], [- 1, 0, 0, 1], [0, 1, 0, 1], [0, - 1, 0, 1], [0, 0, 1, 1], [0, 0, - 1, 1]]
        [[1, 0, 1], [- 1, 0, 1], [0, 1, 1], [0, - 1, 1], [1, 1, 1], [- 1, - 1, 1]])
   = Inr (True, 1)"
proof -
  let ?svd = "\<lambda>M :: mat. [0, 0, 0, 0, 0, 0, 0, 0, 0, 0, 0, 1 :: real]"
  let ?p3 = "[[1, 0, 0, 1], [- 1, 0, 0, 1], [0, 1, 0, 1], [0, - 1, 0, 1], [0, 0, 1, 1],
              [0, 0, - 1, 1 :: real]]"
  let ?p2 = "[[1, 0, 1], [- 1, 0, 1], [0, 1, 1], [0, - 1, 1], [1, 1, 1], [- 1, - 1, 1 :: real]]"
  let ?A = "concat (map (\<lambda>i. dlt_rows (fst (normalize3dpts ?p3) ! i)
                                       (fst (normalize2dpts ?p2) ! i)) [0..<6])"
  let ?P0 = "matmul (matmul (transpose (snd (normalize2dpts ?p2))) (reshape34 (?svd ?A)))
                    (snd (normalize3dpts ?p3))"
  have wf3: "\<forall>p \<in> set ?p3. length p = 4" by simp
  have wf2: "\<forall>p \<in> set ?p2. length p = 3" by simp
  have n3: "6 \<le> length ?p3" by simp
  have n2: "6 \<le> length ?p2" by simp
  have svd: "\<forall>M. length (?svd M) = 12" by simp
  have nz: "?P0 ! 2 ! 3 \<noteq> 0"
    by (simp add: normalize2dpts_def normalize3dpts_def Let_def np_mean_def col_def
        reshape34_def matmul_def dot_def)
  note t = camera_matrix_denormalised [OF wf3 wf2 n3 n2 svd refl refl nz]
  then show ?thesis by simp
qed

section \<open>The RANSAC loop of resection\<close>

lemma take_rows_ok:
  assumes "list_all (\<lambda>j. j < length A) idx"
  shows "take_rows A idx = Inr (map (\<lambda>j. A ! j) idx)"
  using assms by (simp add: take_rows_def)

lemma camera_matrix_ok:
  assumes wf3: "\<forall>p \<in> set pts3d. length p = 4" and wf2: "\<forall>p \<in> set pts2d. length p = 3"
    and n3: "6 \<le> length pts3d" and n2: "6 \<le> length pts2d"
  shows "\<exists>P. camera_matrix svd pts3d pts2d = Inr P"
proof -
  have "\<exists>A. dlt_matrix (fst (normalize3dpts pts3d)) (fst (normalize2dpts pts2d)) = Inr A"
    using n3 n2
    by (simp add: dlt_matrix_def length_normalize3dpts[OF wf3] length_normalize2dpts[OF wf2])
  then show ?thesis
    by (auto simp: camera_matrix_def case_prod_beta Let_def)
qed

lemma rows_wf:
  assumes "\<forall>p \<in> set A. length p = k" and "list_all (\<lambda>j. j < length A) idx"
  shows "\<forall>p \<in> set (map (\<lambda>j. A ! j) idx). length p = k"
  using assms by (auto simp: list_all_iff)

lemma inliers_of_bound:
  "list_all (\<lambda>j. j < length pts2d) (inliers_of P pts3d pts2d)"
  by (auto simp: inliers_of_def Let_def list_all_iff euclid_def)

text \<open>What one pass of the loop does when the sampler keeps its contract.\<close>
lemma ransac_body_ok:
  assumes wf3: "\<forall>p \<in> set pts3d. length p = 4" and wf2: "\<forall>p \<in> set pts2d. length p = 3"
    and len: "length pts2d = length pts3d" and n6: "6 \<le> length pts3d"
    and rnd: "\<forall>k. length (rnd k) = 6 \<and> list_all (\<lambda>j. j < length pts3d) (rnd k)"
  shows "\<exists>s'. ransac_body svd rnd pts3d pts2d s = Inr s'
            \<and> it s' = it s + 1
            \<and> max_it s' \<le> max_it s
            \<and> max_it s' = min (max_it s)
                 (ln (1 - p_conf) /
                  ln (min (1 - eps)
                       (max eps (1 - (real (length (best_inliers s')) / real (length pts3d)) ^ 6))))
            \<and> length (best_inliers s) \<le> length (best_inliers s')
            \<and> (list_all (\<lambda>j. j < length pts3d) (best_inliers s)
                 \<longrightarrow> list_all (\<lambda>j. j < length pts3d) (best_inliers s'))"
proof -
  let ?points = "rnd (it s)"
  have ch: "random_choice rnd (it s) (length pts3d) 6 = Inr ?points"
    using n6 by (simp add: random_choice_def)
  have idx3: "list_all (\<lambda>j. j < length pts3d) ?points" using rnd by blast
  then have idx2: "list_all (\<lambda>j. j < length pts2d) ?points" by (simp add: len)
  let ?sel3 = "map (\<lambda>j. pts3d ! j) ?points" and ?sel2 = "map (\<lambda>j. pts2d ! j) ?points"
  have six: "6 \<le> length ?sel3" "6 \<le> length ?sel2" using rnd by simp_all
  obtain P where P: "camera_matrix svd ?sel3 ?sel2 = Inr P"
    using camera_matrix_ok[OF rows_wf[OF wf3 idx3] rows_wf[OF wf2 idx2] six] by blast
  have bound: "list_all (\<lambda>j. j < length pts3d) (inliers_of P pts3d pts2d)"
    using inliers_of_bound[of pts2d P pts3d] by (simp add: len)
  show ?thesis
    using bound
    by (simp add: ransac_body_def ch take_rows_ok[OF idx3] take_rows_ok[OF idx2] P Let_def)
qed

lemma ransac_loop_ok:
  "\<forall>p \<in> set pts3d. length p = 4 \<Longrightarrow> \<forall>p \<in> set pts2d. length p = 3 \<Longrightarrow>
   length pts2d = length pts3d \<Longrightarrow> 6 \<le> length pts3d \<Longrightarrow>
   \<forall>k. length (rnd k) = 6 \<and> list_all (\<lambda>j. j < length pts3d) (rnd k) \<Longrightarrow>
   max_it s \<le> 1000 \<Longrightarrow> it s \<le> 1000 \<Longrightarrow>
   list_all (\<lambda>j. j < length pts3d) (best_inliers s) \<Longrightarrow>
   \<exists>s'. ransac_loop svd rnd pts3d pts2d s = Inr s'
      \<and> it s \<le> it s' \<and> it s' \<le> 1000
      \<and> max_it s' \<le> max_it s
      \<and> \<not> real (it s') < max_it s'
      \<and> list_all (\<lambda>j. j < length pts3d) (best_inliers s')"
proof (induction svd rnd pts3d pts2d s rule: ransac_loop.induct)
  case (1 svd rnd pts3d pts2d s)
  show ?case
  proof (cases "real (it s) < max_it s")
    case False
    with "1.prems" show ?thesis
      by (subst ransac_loop.simps) simp
  next
    case True
    from ransac_body_ok[OF "1.prems"(1-5), of svd s]
    obtain s1 where body: "ransac_body svd rnd pts3d pts2d s = Inr s1"
      and step: "it s1 = it s + 1" and shrink: "max_it s1 \<le> max_it s"
      and keep: "list_all (\<lambda>j. j < length pts3d) (best_inliers s) \<longrightarrow>
                 list_all (\<lambda>j. j < length pts3d) (best_inliers s1)"
      by blast
    from True "1.prems"(6) have "it s < 1000" by linarith
    with step have it1: "it s1 \<le> 1000" by simp
    from shrink "1.prems"(6) have m1: "max_it s1 \<le> 1000" by simp
    from keep "1.prems"(8) have b1: "list_all (\<lambda>j. j < length pts3d) (best_inliers s1)" by simp
    from "1.IH"[OF True body "1.prems"(1-5) m1 it1 b1]
    obtain s' where res: "ransac_loop svd rnd pts3d pts2d s1 = Inr s'"
      and a: "it s1 \<le> it s'" "it s' \<le> 1000" "max_it s' \<le> max_it s1"
             "\<not> real (it s') < max_it s'"
             "list_all (\<lambda>j. j < length pts3d) (best_inliers s')"
      by blast
    have "ransac_loop svd rnd pts3d pts2d s = Inr s'"
      using True body res by (subst ransac_loop.simps) simp
    with a step shrink show ?thesis by simp
  qed
qed

lemma correspondences_wf:
  assumes wf: "\<forall>tk \<in> set tracks. length (pt tk) = 4 \<and> (\<forall>v. views tk i = Some v \<longrightarrow> length v = 2)"
  shows "\<forall>p \<in> set (fst (correspondences tracks i)). length p = 4"
    and "\<forall>p \<in> set (map (\<lambda>r. r @ [1]) (snd (correspondences tracks i))). length p = 3"
    and "length (snd (correspondences tracks i)) = length (fst (correspondences tracks i))"
  using wf by (auto simp: correspondences_def Let_def)

lemma clamp_range:
  "eps \<le> min (1 - eps) (max eps x) \<and> min (1 - eps) (max eps x) \<le> 1 - eps"
  by (simp add: eps_def min_def max_def)

text \<open>
  Claim C6: in every execution of the RANSAC loop of \<^verbatim>\<open>resection\<close> (at least six
  correspondences, the sampler returning six valid indices), each pass adds one to the
  counter and sets the budget \<^verbatim>\<open>max_it\<close> to the minimum of the current budget and
  \<open>ln (1 - p) / ln pNoOutliers\<close>, with \<open>pNoOutliers\<close> clamped to \<open>[eps, 1 - eps]\<close>, so the budget
  never grows; and the loop, started with a budget of 1000, returns after at most 1000
  passes, whatever samples are drawn.
\<close>
theorem ransac_budget_never_grows:
  assumes wf3: "\<forall>p \<in> set pts3d. length p = 4" and wf2: "\<forall>p \<in> set pts2d. length p = 3"
    and len: "length pts2d = length pts3d" and n6: "6 \<le> length pts3d"
    and rnd: "\<forall>k. length (rnd k) = 6 \<and> list_all (\<lambda>j. j < length pts3d) (rnd k)"
  shows "(\<forall>s. \<exists>s'. ransac_body svd rnd pts3d pts2d s = Inr s'
            \<and> it s' = it s + 1
            \<and> max_it s' \<le> max_it s
            \<and> max_it s' = min (max_it s)
                 (ln (1 - p_conf) /
                  ln (min (1 - eps)
                       (max eps (1 - (real (length (best_inliers s')) / real (length pts3d)) ^ 6)))))
       \<and> (\<forall>x. eps \<le> min (1 - eps) (max eps x) \<and> min (1 - eps) (max eps x) \<le> 1 - eps)
       \<and> (\<exists>s'. ransac_loop svd rnd pts3d pts2d \<lparr>it = 0, max_it = 1000, best_inliers = []\<rparr> = Inr s'
            \<and> it s' \<le> 1000 \<and> max_it s' \<le> 1000 \<and> \<not> real (it s') < max_it s')"
proof -
  have body: "\<forall>s. \<exists>s'. ransac_body svd rnd pts3d pts2d s = Inr s'
            \<and> it s' = it s + 1
            \<and> max_it s' \<le> max_it s
            \<and> max_it s' = min (max_it s)
                 (ln (1 - p_conf) /
                  ln (min (1 - eps)
                       (max eps (1 - (real (length (best_inliers s')) / real (length pts3d)) ^ 6))))"
    using ransac_body_ok[OF wf3 wf2 len n6 rnd, of svd] by blast
  have loop: "\<exists>s'. ransac_loop svd rnd pts3d pts2d \<lparr>it = 0, max_it = 1000, best_inliers = []\<rparr> = Inr s'
            \<and> it s' \<le> 1000 \<and> max_it s' \<le> 1000 \<and> \<not> real (it s') < max_it s'"
    using ransac_loop_ok[OF wf3 wf2 len n6 rnd,
        of "\<lparr>it = 0, max_it = 1000, best_inliers = []\<rparr>" svd]
    by auto
  from body clamp_range loop show ?thesis by blast
qed

text \<open>
  Claim C7: a call of \<^verbatim>\<open>resection\<close> that completes its RANSAC loop fails with the
  insufficient-inliers error exactly when the largest inlier set found has fewer than 6
  members, and otherwise returns the camera matrix that \<^verbatim>\<open>camera_matrix\<close> computes from the
  inlier correspondences.
\<close>
theorem resection_inlier_check:
  assumes wf: "\<forall>tk \<in> set tracks. length (pt tk) = 4 \<and> (\<forall>v. views tk i = Some v \<longrightarrow> length v = 2)"
    and pts3d: "pts3d = fst (correspondences tracks i)"
    and pts2d: "pts2d = map (\<lambda>r. r @ [1]) (snd (correspondences tracks i))"
    and n6: "6 \<le> length pts3d"
    and rnd: "\<forall>k. length (rnd k) = 6 \<and> list_all (\<lambda>j. j < length pts3d) (rnd k)"
  shows "\<exists>s. ransac_loop svd rnd pts3d pts2d \<lparr>it = 0, max_it = 1000, best_inliers = []\<rparr> = Inr s
       \<and> resection svd rnd tracks i =
           (if length (best_inliers s) < 6 then Inl InlierError
            else camera_matrix svd (map (\<lambda>j. pts3d ! j) (best_inliers s))
                                   (map (\<lambda>j. pts2d ! j) (best_inliers s)))
       \<and> (resection svd rnd tracks i = Inl InlierError \<longleftrightarrow> length (best_inliers s) < 6)
       \<and> ((\<exists>P. resection svd rnd tracks i = Inr P) \<longleftrightarrow> 6 \<le> length (best_inliers s))"
proof -
  note c = correspondences_wf[OF wf]
  have wf3: "\<forall>p \<in> set pts3d. length p = 4" using c(1) by (simp add: pts3d)
  have wf2: "\<forall>p \<in> set pts2d. length p = 3" using c(2) by (simp add: pts2d)
  have len: "length pts2d = length pts3d" using c(3) by (simp add: pts2d pts3d)
  from ransac_loop_ok[OF wf3 wf2 len n6 rnd, of "\<lparr>it = 0, max_it = 1000, best_inliers = []\<rparr>" svd]
  obtain s where loop: "ransac_loop svd rnd pts3d pts2d \<lparr>it = 0, max_it = 1000, best_inliers = []\<rparr> = Inr s"
    and idx: "list_all (\<lambda>j. j < length pts3d) (best_inliers s)"
    by auto
  from n6 have ne: "snd (correspondences tracks i) \<noteq> []"
    using c(3) by (auto simp: pts3d)
  have res: "resection svd rnd tracks i =
           (if length (best_inliers s) < 6 then Inl InlierError
            else camera_matrix svd (map (\<lambda>j. pts3d ! j) (best_inliers s))
                                   (map (\<lambda>j. pts2d ! j) (best_inliers s)))"
    using loop ne
    by (simp add: resection_def case_prod_beta Let_def homog_def pts3d[symmetric] pts2d[symmetric])
  have ok: "\<exists>P. camera_matrix svd (map (\<lambda>j. pts3d ! j) (best_inliers s))
                                   (map (\<lambda>j. pts2d ! j) (best_inliers s)) = Inr P"
    if "6 \<le> length (best_inliers s)"
  proof -
    from idx have idx2: "list_all (\<lambda>j. j < length pts2d) (best_inliers s)" by (simp add: len)
    show ?thesis
      using camera_matrix_ok[OF rows_wf[OF wf3 idx] rows_wf[OF wf2 idx2]] that by simp
  qed
  have e1: "resection svd rnd tracks i = Inl InlierError \<longleftrightarrow> length (best_inliers s) < 6"
    using res ok by (cases "length (best_inliers s) < 6") auto
  have e2: "(\<exists>P. resection svd rnd tracks i = Inr P) \<longleftrightarrow> 6 \<le> length (best_inliers s)"
    using res ok by (cases "length (best_inliers s) < 6") auto
  from loop res e1 e2 show ?thesis by blast
qed

text \<open>
  Claim C2, as amended: a call of \<^verbatim>\<open>resection\<close> with fewer than 6 usable tracks returns no
  camera matrix. It fails in the first pass of the loop, where the sampler refuses to draw
  6 indices out of fewer, or, with no usable track at all, already in \<^verbatim>\<open>homog\<close>; the
  error is not one that \<^verbatim>\<open>resection\<close> raises itself.
\<close>
theorem resection_few_correspondences:
  assumes wf: "\<forall>tk \<in> set tracks. length (pt tk) = 4 \<and> (\<forall>v. views tk i = Some v \<longrightarrow> length v = 2)"
    and few: "length (fst (correspondences tracks i)) < 6"
  shows "resection svd rnd tracks i =
           (if fst (correspondences tracks i) = [] then Inl AxisError else Inl SampleError)
       \<and> (\<forall>P. resection svd rnd tracks i \<noteq> Inr P)
       \<and> resection svd rnd tracks i \<noteq> Inl InlierError"
proof -
  note c = correspondences_wf[OF wf]
  let ?p3 = "fst (correspondences tracks i)" and ?p2 = "snd (correspondences tracks i)"
  have res: "resection svd rnd tracks i = (if ?p3 = [] then Inl AxisError else Inl SampleError)"
  proof (cases "?p3 = []")
    case True
    then have "?p2 = []" using c(3) by simp
    with True show ?thesis
      by (simp add: resection_def case_prod_beta Let_def homog_def)
  next
    case False
    then have ne: "?p2 \<noteq> []" using c(3) by auto
    have "ransac_body svd rnd ?p3 (map (\<lambda>r. r @ [1]) ?p2) \<lparr>it = 0, max_it = 1000, best_inliers = []\<rparr>
        = Inl SampleError"
      using few by (simp add: ransac_body_def random_choice_def)
    then have "ransac_loop svd rnd ?p3 (map (\<lambda>r. r @ [1]) ?p2) \<lparr>it = 0, max_it = 1000, best_inliers = []\<rparr>
        = Inl SampleError"
      by (subst ransac_loop.simps) simp
    with False ne show ?thesis
      by (simp add: resection_def case_prod_beta Let_def homog_def)
  qed
  then show ?thesis by auto
qed

text \<open>The theorem at six correspondences, with the sampler always drawing all of them.\<close>
theorem ransac_budget_never_grows_witness:
  "\<exists>s'. ransac_loop (\<lambda>M. [0, 0, 0, 0, 0, 0, 0, 0, 0, 0, 0, 1]) (\<lambda>k. [0, 1, 2, 3, 4, 5])
          [[1, 0, 0, 1], [- 1, 0, 0, 1], [0, 1, 0, 1], [0, - 1, 0, 1], [0, 0, 1, 1], [0, 0, - 1, 1]]
          [[1, 0, 1], [- 1, 0, 1], [0, 1, 1], [0, - 1, 1], [1, 1, 1], [- 1, - 1, 1]]
          \<lparr>it = 0, max_it = 1000, best_inliers = []\<rparr> = Inr s'
      \<and> it s' \<le> 1000 \<and> max_it s' \<le> 1000 \<and> \<not> real (it s') < max_it s'"
proof -
  let ?p3 = "[[1, 0, 0, 1], [- 1, 0, 0, 1], [0, 1, 0, 1], [0, - 1, 0, 1], [0, 0, 1, 1],
              [0, 0, - 1, 1 :: real]]"
  let ?p2 = "[[1, 0, 1], [- 1, 0, 1], [0, 1, 1], [0, - 1, 1], [1, 1, 1], [- 1, - 1, 1 :: real]]"
  let ?rnd = "\<lambda>k :: nat. [0, 1, 2, 3, 4, 5 :: nat]"
  have wf3: "\<forall>p \<in> set ?p3. length p = 4" by simp
  have wf2: "\<forall>p \<in> set ?p2. length p = 3" by simp
  have len: "length ?p2 = length ?p3" by simp
  have n6: "6 \<le> length ?p3" by simp
  have rnd: "\<forall>k. length (?rnd k) = 6 \<and> list_all (\<lambda>j. j < length ?p3) (?rnd k)" by simp
  from ransac_budget_never_grows [OF wf3 wf2 len n6 rnd]
  show ?thesis by blast
qed

lemma correspondences_six:
  "correspondences
     [track_at 1 0 0 1 0, track_at (- 1) 0 0 (- 1) 0, track_at 0 1 0 0 1,
      track_at 0 (- 1) 0 0 (- 1), track_at 0 0 1 1 1, track_at 0 0 (- 1) (- 1) (- 1)] 0
   = ([[1, 0, 0, 1], [- 1, 0, 0, 1], [0, 1, 0, 1], [0, - 1, 0, 1], [0, 0, 1, 1], [0, 0, - 1, 1]],
      [[1, 0], [- 1, 0], [0, 1], [0, - 1], [1, 1], [- 1, - 1]])"
  by (simp add: correspondences_def track_at_def)

text \<open>The theorem at six tracks seen in view 0.\<close>
theorem resection_inlier_check_witness:
  "\<exists>s. ransac_loop (\<lambda>M. [0, 0, 0, 0, 0, 0, 0, 0, 0, 0, 0, 1]) (\<lambda>k. [0, 1, 2, 3, 4, 5])
          [[1, 0, 0, 1], [- 1, 0, 0, 1], [0, 1, 0, 1], [0, - 1, 0, 1], [0, 0, 1, 1], [0, 0, - 1, 1]]
          [[1, 0, 1], [- 1, 0, 1], [0, 1, 1], [0, - 1, 1], [1, 1, 1], [- 1, - 1, 1]]
          \<lparr>it = 0, max_it = 1000, best_inliers = []\<rparr> = Inr s
      \<and> (resection (\<lambda>M. [0, 0, 0, 0, 0, 0, 0, 0, 0, 0, 0, 1]) (\<lambda>k. [0, 1, 2, 3, 4, 5])
            [track_at 1 0 0 1 0, track_at (- 1) 0 0 (- 1) 0, track_at 0 1 0 0 1,
             track_at 0 (- 1) 0 0 (- 1), track_at 0 0 1 1 1, track_at 0 0 (- 1) (- 1) (- 1)] 0
          = Inl InlierError \<longleftrightarrow> length (best_inliers s) < 6)"
proof -
  let ?tracks = "[track_at 1 0 0 1 0, track_at (- 1) 0 0 (- 1) 0, track_at 0 1 0 0 1,
      track_at 0 (- 1) 0 0 (- 1), track_at 0 0 1 1 1, track_at 0 0 (- 1) (- 1) (- 1)]"
  let ?p3 = "[[1, 0, 0, 1], [- 1, 0, 0, 1], [0, 1, 0, 1], [0, - 1, 0, 1], [0, 0, 1, 1],
              [0, 0, - 1, 1 :: real]]"
  let ?p2 = "[[1, 0, 1], [- 1, 0, 1], [0, 1, 1], [0, - 1, 1], [1, 1, 1], [- 1, - 1, 1 :: real]]"
  let ?rnd = "\<lambda>k :: nat. [0, 1, 2, 3, 4, 5 :: nat]"
  have wf: "\<forall>tk \<in> set ?tracks. length (pt tk) = 4 \<and> (\<forall>v. views tk 0 = Some v \<longrightarrow> length v = 2)"
    by (auto simp: track_at_def)
  have p3: "?p3 = fst (correspondences ?tracks 0)"
    by (simp add: correspondences_six)
  have p2: "?p2 = map (\<lambda>r. r @ [1]) (snd (correspondences ?tracks 0))"
    by (simp add: correspondences_six)
  have n6: "6 \<le> length ?p3" by simp
  have rnd: "\<forall>k. length (?rnd k) = 6 \<and> list_all (\<lambda>j. j < length ?p3) (?rnd k)" by simp
  from resection_inlier_check [OF wf p3 p2 n6 rnd]
  show ?thesis by blast
qed

text \<open>The theorem at two tracks seen in view 0.\<close>
theorem resection_few_correspondences_witness:
  "resection (\<lambda>M. [0, 0, 0, 0, 0, 0, 0, 0, 0, 0, 0, 1]) (\<lambda>k. [0, 1, 2, 3, 4, 5])
     [track_at 1 0 0 1 0, track_at (- 1) 0 0 (- 1) 0] 0 = Inl SampleError"
proof -
  let ?tracks = "[track_at 1 0 0 1 0, track_at (- 1) 0 0 (- 1) 0]"
  have wf: "\<forall>tk \<in> set ?tracks. length (pt tk) = 4 \<and> (\<forall>v. views tk 0 = Some v \<longrightarrow> length v = 2)"
    by (auto simp: track_at_def)
  have c: "fst (correspondences ?tracks 0) = [[1, 0, 0, 1], [- 1, 0, 0, 1]]"
    by (simp add: correspondences_def track_at_def)
  have few: "length (fst (correspondences ?tracks 0)) < 6"
    by (simp add: c)
  from resection_few_correspondences [OF wf few] c
  show ?thesis by simp
qed

text \<open>
  Claim C2 as stated fails: there is no check of the number of correspondences. With one
  usable track the error is the one of the sampler, with none it is the one of \<^verbatim>\<open>homog\<close>.
\<close>
theorem resection_other_failure_counterexample:
  "resection (\<lambda>M. [0, 0, 0, 0, 0, 0, 0, 0, 0, 0, 0, 1]) (\<lambda>k. [0, 1, 2, 3, 4, 5])
     [track_at 1 0 0 1 0] 0 = Inl SampleError
   \<and> resection (\<lambda>M. [0, 0, 0, 0, 0, 0, 0, 0, 0, 0, 0, 1]) (\<lambda>k. [0, 1, 2, 3, 4, 5])
     [track_at 1 0 0 1 0] 0 \<noteq> Inl InlierError
   \<and> resection (\<lambda>M. [0, 0, 0, 0, 0, 0, 0, 0, 0, 0, 0, 1]) (\<lambda>k. [0, 1, 2, 3, 4, 5])
     [] 0 = Inl AxisError"
proof -
  have c: "correspondences [track_at 1 0 0 1 0] 0 = ([[1, 0, 0, 1]], [[1, 0]])"
    by (simp add: correspondences_def track_at_def)
  have "ransac_loop (\<lambda>M. [0, 0, 0, 0, 0, 0, 0, 0, 0, 0, 0, 1]) (\<lambda>k. [0, 1, 2, 3, 4, 5])
          [[1, 0, 0, 1]] [[1, 0, 1]] \<lparr>it = 0, max_it = 1000, best_inliers = []\<rparr>
        = Inl SampleError"
    by (subst ransac_loop.simps) (simp add: ransac_body_def random_choice_def)
  then have one: "resection (\<lambda>M. [0, 0, 0, 0, 0, 0, 0, 0, 0, 0, 0, 1]) (\<lambda>k. [0, 1, 2, 3, 4, 5])
     [track_at 1 0 0 1 0] 0 = Inl SampleError"
    by (simp add: resection_def c homog_def)
  have none: "resection (\<lambda>M. [0, 0, 0, 0, 0, 0, 0, 0, 0, 0, 0, 1]) (\<lambda>k. [0, 1, 2, 3, 4, 5])
     [] 0 = Inl AxisError"
    by (simp add: resection_def correspondences_def homog_def)
  from one none show ?thesis by simp
qed

section \<open>The affine upgrade\<close>

lemma eye4: "eye 4 = [[1, 0, 0, 0], [0, 1, 0, 0], [0, 0, 1, 0], [0, 0, 0, 1]]"
  by (simp add: eye_def upt_rec)

lemma eye3: "eye 3 = [[1, 0, 0], [0, 1, 0], [0, 0, 1]]"
  by (simp add: eye_def upt_rec)

lemma list4:
  assumes "length v = 4"
  obtains a b c d :: 'a where "v = [a, b, c, d]"
  using assms by (auto simp: numeral_eq_Suc length_Suc_conv)

lemma list3:
  assumes "length v = 3"
  obtains a b c :: 'a where "v = [a, b, c]"
  using assms by (auto simp: numeral_eq_Suc length_Suc_conv)

lemma dims_4_4:
  assumes "dims 4 4 H"
  obtains r0 r1 r2 r3 where "H = [r0, r1, r2, r3]"
    and "length r0 = 4" and "length r1 = 4" and "length r2 = 4" and "length r3 = 4"
proof -
  from assms have "length H = 4" by (simp add: dims_def)
  then obtain r0 r1 r2 r3 where H: "H = [r0, r1, r2, r3]" by (rule list4)
  with assms have "length r0 = 4" "length r1 = 4" "length r2 = 4" "length r3 = 4"
    by (simp_all add: dims_def)
  with H show ?thesis by (rule that)
qed

lemma length_transpose_rect:
  assumes "\<forall>r \<in> set X. length r = N" and "X \<noteq> []"
  shows "length (transpose X) = N"
proof -
  have "foldr (\<lambda>xs. max (length xs)) X 0 = (if X = [] then 0 else N)"
    using assms(1) by (induction X) auto
  with assms(2) show ?thesis by (simp add: length_transpose)
qed

lemma nth_transpose_rect:
  assumes "\<forall>r \<in> set X. length r = N" and "X \<noteq> []" and "j < N"
  shows "transpose X ! j = col X j"
proof -
  have ne: "j < length (transpose X)"
    using length_transpose_rect[OF assms(1) assms(2)] assms(3) by simp
  have "filter (\<lambda>ys. j < length ys) X = X"
    using assms by (simp add: filter_id_conv)
  with nth_transpose[OF ne] show ?thesis by (simp add: col_def)
qed

text \<open>A column of a product is the matrix applied to the column.\<close>
lemma col_matmul:
  assumes "\<forall>r \<in> set X. length r = N" and "X \<noteq> []" and "j < N"
  shows "col (matmul H X) j = mat_vec H (col X j)"
proof -
  have l: "j < length (transpose X)"
    using length_transpose_rect[OF assms(1) assms(2)] assms(3) by simp
  have n: "transpose X ! j = map (\<lambda>r. r ! j) X"
    using nth_transpose_rect[OF assms] by (simp add: col_def)
  show ?thesis
    using l by (simp add: col_def matmul_def mat_vec_def n)
qed

lemma mat_vec_matmul_3_4_4:
  assumes "length a = 4" and "length b = 4" and "length c = 4" and H: "dims 4 4 H"
    and v: "length v = 4"
  shows "mat_vec (matmul [a, b, c] H) v = mat_vec [a, b, c] (mat_vec H v)"
proof -
  from H obtain r0 r1 r2 r3 where "H = [r0, r1, r2, r3]"
    and "length r0 = 4" "length r1 = 4" "length r2 = 4" "length r3 = 4"
    by (rule dims_4_4)
  moreover obtain a0 a1 a2 a3 where "a = [a0, a1, a2, a3]" using assms(1) by (rule list4)
  moreover obtain b0 b1 b2 b3 where "b = [b0, b1, b2, b3]" using assms(2) by (rule list4)
  moreover obtain c0 c1 c2 c3 where "c = [c0, c1, c2, c3]" using assms(3) by (rule list4)
  moreover obtain v0 v1 v2 v3 where "v = [v0, v1, v2, v3]" using v by (rule list4)
  moreover obtain h00 h01 h02 h03 where "r0 = [h00, h01, h02, h03]"
    using \<open>length r0 = 4\<close> by (rule list4)
  moreover obtain h10 h11 h12 h13 where "r1 = [h10, h11, h12, h13]"
    using \<open>length r1 = 4\<close> by (rule list4)
  moreover obtain h20 h21 h22 h23 where "r2 = [h20, h21, h22, h23]"
    using \<open>length r2 = 4\<close> by (rule list4)
  moreover obtain h30 h31 h32 h33 where "r3 = [h30, h31, h32, h33]"
    using \<open>length r3 = 4\<close> by (rule list4)
  ultimately show ?thesis
    by (simp add: matmul_def mat_vec_def dot_def algebra_simps)
qed

lemma mat_vec_matmul_4_4_4:
  assumes G: "dims 4 4 G" and H: "dims 4 4 H" and v: "length v = 4"
  shows "mat_vec (matmul G H) v = mat_vec G (mat_vec H v)"
proof -
  from G obtain g0 g1 g2 g3 where G': "G = [g0, g1, g2, g3]"
    and lg: "length g0 = 4" "length g1 = 4" "length g2 = 4" "length g3 = 4"
    by (rule dims_4_4)
  have a: "mat_vec (matmul [g0, g1, g2] H) v = mat_vec [g0, g1, g2] (mat_vec H v)"
    using lg H v by (intro mat_vec_matmul_3_4_4)
  have b: "mat_vec (matmul [g3, g3, g3] H) v = mat_vec [g3, g3, g3] (mat_vec H v)"
    using lg H v by (intro mat_vec_matmul_3_4_4)
  from a b show ?thesis
    by (simp add: G' matmul_def mat_vec_def)
qed

lemma mat_vec_eye4:
  assumes "length v = 4"
  shows "mat_vec (eye 4) v = v"
proof -
  obtain v0 v1 v2 v3 where "v = [v0, v1, v2, v3]" using assms by (rule list4)
  then show ?thesis by (simp add: eye4 mat_vec_def dot_def)
qed

lemma mat_vec_scale:
  "mat_vec A (scale_vec c v) = scale_vec c (mat_vec A v)"
proof -
  have "dot r (scale_vec c v) = c * dot r v" for r
    unfolding dot_def scale_vec_def
  proof (induction r arbitrary: v)
    case Nil
    then show ?case by simp
  next
    case (Cons x r)
    then show ?case by (cases v) (simp_all add: algebra_simps)
  qed
  then show ?thesis by (simp add: mat_vec_def scale_vec_def)
qed

lemma dims_3_4:
  assumes "dims 3 4 P"
  obtains a b c where "P = [a, b, c]" and "length a = 4" and "length b = 4" and "length c = 4"
proof -
  from assms have "length P = 3" by (simp add: dims_def)
  then obtain a b c where P: "P = [a, b, c]" by (rule list3)
  with assms have "length a = 4" "length b = 4" "length c = 4"
    by (simp_all add: dims_def)
  with P show ?thesis by (rule that)
qed

lemma camera_after_upgrade:
  assumes P: "dims 3 4 P" and H: "dims 4 4 H" and Hi: "dims 4 4 Hi"
    and inverse: "matmul Hi H = eye 4" and x: "length x = 4"
  shows "mat_vec (matmul P Hi) (scale_vec c (mat_vec H x)) = scale_vec c (mat_vec P x)"
proof -
  from P obtain a b d where P': "P = [a, b, d]"
    and l: "length a = 4" "length b = 4" "length d = 4"
    by (rule dims_3_4)
  have lH: "length (mat_vec H x) = 4"
    using H by (simp add: mat_vec_def dims_def)
  have "mat_vec Hi (mat_vec H x) = mat_vec (matmul Hi H) x"
    using mat_vec_matmul_4_4_4[OF Hi H x] by simp
  also have "\<dots> = x"
    by (simp add: inverse mat_vec_eye4[OF x])
  finally have roundtrip: "mat_vec Hi (mat_vec H x) = x" .
  have "mat_vec (matmul P Hi) (scale_vec c (mat_vec H x))
      = scale_vec c (mat_vec (matmul P Hi) (mat_vec H x))"
    by (rule mat_vec_scale)
  also have "mat_vec (matmul P Hi) (mat_vec H x) = mat_vec P (mat_vec Hi (mat_vec H x))"
    unfolding P' using l Hi lH by (intro mat_vec_matmul_3_4_4)
  finally show ?thesis by (simp add: roundtrip)
qed

lemma col_divided:
  assumes rows: "\<forall>r \<in> set Y. length r = N" and four: "length Y = 4" and j: "j < N"
  shows "col (map (\<lambda>row. map2 (/) row (Y ! 3)) Y) j = scale_vec (1 / (col Y j ! 3)) (col Y j)"
proof -
  have l3: "length (Y ! 3) = N"
    using rows four by simp
  have "(map2 (/) row (Y ! 3)) ! j = 1 / (Y ! 3 ! j) * row ! j" if "row \<in> set Y" for row
    using that rows j l3 by simp
  moreover have "col Y j ! 3 = Y ! 3 ! j"
    using four by (simp add: col_def)
  ultimately show ?thesis
    by (simp add: col_def scale_vec_def)
qed

text \<open>
  Claim C5: for every 4 by 4 matrix \<open>H\<close> with inverse \<open>Hi\<close>, every 3 by 4 camera of the list
  and every column \<open>X\<close> of \<^verbatim>\<open>Xprj\<close> whose image under \<open>H\<close> has a nonzero homogeneous scale
  \<open>w\<close>, the upgraded camera applied to the upgraded point is \<open>1 / w\<close> times the camera
  applied to the point, a nonzero multiple: \<^verbatim>\<open>transform\<close> preserves every projection up to
  scale.
\<close>
theorem transform_preserves_projections:
  assumes H: "dims 4 4 H" and X: "dims 4 N Xprj"
    and cams: "\<forall>P \<in> set cams_pr. dims 3 4 P"
    and inv: "linalg_inv H = Some Hi" and Hi: "dims 4 4 Hi"
    and inverse: "matmul Hi H = eye 4"
  shows "\<exists>Xaff cams_aff. transform linalg_inv H Xprj cams_pr = Inr (Xaff, cams_aff)
       \<and> length cams_aff = length cams_pr
       \<and> (\<forall>k < length cams_pr. \<forall>j < N. mat_vec H (col Xprj j) ! 3 \<noteq> 0 \<longrightarrow>
             1 / (mat_vec H (col Xprj j) ! 3) \<noteq> 0
           \<and> mat_vec (cams_aff ! k) (col Xaff j)
               = scale_vec (1 / (mat_vec H (col Xprj j) ! 3)) (mat_vec (cams_pr ! k) (col Xprj j)))"
proof -
  let ?Y = "matmul H Xprj"
  let ?Xaff = "map (\<lambda>row. map2 (/) row (?Y ! 3)) ?Y"
  let ?cams = "map (\<lambda>cam. matmul cam Hi) cams_pr"
  have res: "transform linalg_inv H Xprj cams_pr = Inr (?Xaff, ?cams)"
    by (simp add: transform_def Let_def inv)
  have rowsX: "\<forall>r \<in> set Xprj. length r = N" and neX: "Xprj \<noteq> []" and lenX: "length Xprj = 4"
    using X by (auto simp: dims_def list_all_iff)
  have rowsY: "\<forall>r \<in> set ?Y. length r = N"
    by (simp add: matmul_def length_transpose_rect[OF rowsX neX])
  have fourY: "length ?Y = 4"
    using H by (simp add: matmul_def dims_def)
  have main: "mat_vec (?cams ! k) (col ?Xaff j)
      = scale_vec (1 / (mat_vec H (col Xprj j) ! 3)) (mat_vec (cams_pr ! k) (col Xprj j))"
    if k: "k < length cams_pr" and j: "j < N" for k j
  proof -
    have P: "dims 3 4 (cams_pr ! k)" using cams k by simp
    have x: "length (col Xprj j) = 4" by (simp add: col_def lenX)
    have c: "col ?Y j = mat_vec H (col Xprj j)"
      by (rule col_matmul[OF rowsX neX j])
    have "col ?Xaff j = scale_vec (1 / (col ?Y j ! 3)) (col ?Y j)"
      by (rule col_divided[OF rowsY fourY j])
    then have "col ?Xaff j
        = scale_vec (1 / (mat_vec H (col Xprj j) ! 3)) (mat_vec H (col Xprj j))"
      by (simp add: c)
    then show ?thesis
      using k by (simp add: camera_after_upgrade[OF P H Hi inverse x])
  qed
  show ?thesis
    using res main by auto
qed

text \<open>The theorem at a diagonal \<open>H\<close>, two points and one camera.\<close>
theorem transform_preserves_projections_witness:
  "\<exists>Xaff cams_aff.
     transform (\<lambda>M. Some [[1, 0, 0, 0], [0, 1, 0, 0], [0, 0, 1, 0], [0, 0, 0, 1 / 2]])
       [[1, 0, 0, 0], [0, 1, 0, 0], [0, 0, 1, 0], [0, 0, 0, 2]]
       [[1, 2], [3, 4], [5, 6], [1, 1]]
       [[[1, 0, 0, 0], [0, 1, 0, 0], [0, 0, 1, 1]]] = Inr (Xaff, cams_aff)
   \<and> mat_vec (cams_aff ! 0) (col Xaff 1) = scale_vec (1 / 2) [2, 4, 7]"
proof -
  let ?H = "[[1, 0, 0, 0], [0, 1, 0, 0], [0, 0, 1, 0], [0, 0, 0, 2 :: real]]"
  let ?Hi = "[[1, 0, 0, 0], [0, 1, 0, 0], [0, 0, 1, 0], [0, 0, 0, 1 / 2 :: real]]"
  let ?X = "[[1, 2], [3, 4], [5, 6], [1, 1 :: real]]"
  let ?cams = "[[[1, 0, 0, 0], [0, 1, 0, 0], [0, 0, 1, 1 :: real]]]"
  have H: "dims 4 4 ?H" and Hi: "dims 4 4 ?Hi" and X: "dims 4 2 ?X"
    by (simp_all add: dims_def)
  have cams: "\<forall>P \<in> set ?cams. dims 3 4 P" by (simp add: dims_def)
  have inv: "(\<lambda>M :: mat. Some ?Hi) ?H = Some ?Hi" by simp
  have inverse: "matmul ?Hi ?H = eye 4"
    by (simp add: matmul_def dot_def eye4)
  have w: "mat_vec ?H (col ?X 1) ! 3 = 2" "mat_vec (?cams ! 0) (col ?X 1) = [2, 4, 7]"
    by (simp_all add: mat_vec_def col_def dot_def)
  from transform_preserves_projections [OF H X cams inv Hi inverse]
  obtain Xaff cams_aff where
    r: "transform (\<lambda>M. Some ?Hi) ?H ?X ?cams = Inr (Xaff, cams_aff)"
    and p: "\<forall>k < length ?cams. \<forall>j < 2. mat_vec ?H (col ?X j) ! 3 \<noteq> 0 \<longrightarrow>
             1 / (mat_vec ?H (col ?X j) ! 3) \<noteq> 0
           \<and> mat_vec (cams_aff ! k) (col Xaff j)
               = scale_vec (1 / (mat_vec ?H (col ?X j) ! 3)) (mat_vec (?cams ! k) (col ?X j))"
    by blast
  from p have "mat_vec ?H (col ?X 1) ! 3 \<noteq> 0 \<longrightarrow>
      mat_vec (cams_aff ! 0) (col Xaff 1)
        = scale_vec (1 / (mat_vec ?H (col ?X 1) ! 3)) (mat_vec (?cams ! 0) (col ?X 1))"
    by simp
  then have "mat_vec (cams_aff ! 0) (col Xaff 1) = scale_vec (1 / 2) [2, 4, 7]"
    by (simp only: w)
  with r show ?thesis by blast
qed

section \<open>The factorisation of a camera matrix\<close>

lemma dims_3_3:
  assumes "dims 3 3 A"
  obtains a b c d e f g h k :: real where "A = [[a, b, c], [d, e, f], [g, h, k]]"
proof -
  from assms have "length A = 3" by (simp add: dims_def)
  then obtain r0 r1 r2 where A: "A = [r0, r1, r2]" by (rule list3)
  with assms have l: "length r0 = 3" "length r1 = 3" "length r2 = 3"
    by (simp_all add: dims_def)
  obtain a b c where "r0 = [a, b, c]" using l(1) by (rule list3)
  moreover obtain d e f where "r1 = [d, e, f]" using l(2) by (rule list3)
  moreover obtain g h k where "r2 = [g, h, k]" using l(3) by (rule list3)
  ultimately show ?thesis using A by (intro that) simp
qed

lemma upper_triangular_3x3:
  "upper_triangular [[a, b, c], [d, e, f], [g, h, k]] \<longleftrightarrow> d = 0 \<and> g = 0 \<and> h = 0"
  by (auto simp: upper_triangular_def upt_rec)

lemma orthogonal_3x3:
  "orthogonal [[a, b, c], [d, e, f], [g, h, k]] \<longleftrightarrow>
     a * a + d * d + g * g = 1 \<and> a * b + d * e + g * h = 0 \<and> a * c + d * f + g * k = 0
   \<and> b * b + e * e + h * h = 1 \<and> b * c + e * f + h * k = 0 \<and> c * c + f * f + k * k = 1
   \<and> a * a + b * b + c * c = 1 \<and> a * d + b * e + c * f = 0 \<and> a * g + b * h + c * k = 0
   \<and> d * d + e * e + f * f = 1 \<and> d * g + e * h + f * k = 0 \<and> g * g + h * h + k * k = 1"
  by (auto simp: orthogonal_def matmul_def dot_def eye_def upt_rec mult.commute)

lemma det3_3x3:
  "det3 [[a, b, c], [d, e, f], [g, h, k]]
     = a * (e * k - f * h) - b * (d * k - f * g) + c * (d * h - e * g)"
  by (simp add: det3_def)

lemma matmul_3x3:
  "matmul [[a, b, c], [d, e, f], [g, h, k]] [[a', b', c'], [d', e', f'], [g', h', k']] =
     [[a * a' + b * d' + c * g', a * b' + b * e' + c * h', a * c' + b * f' + c * k'],
      [d * a' + e * d' + f * g', d * b' + e * e' + f * h', d * c' + e * f' + f * k'],
      [g * a' + h * d' + k * g', g * b' + h * e' + k * h', g * c' + h * f' + k * k']]"
  by (simp add: matmul_def dot_def)

lemma det3_matmul:
  "det3 (matmul [[a, b, c], [d, e, f], [g, h, k]] [[a', b', c'], [d', e', f'], [g', h', k']])
     = det3 [[a, b, c], [d, e, f], [g, h, k]] * det3 [[a', b', c'], [d', e', f'], [g', h', k']]"
  unfolding matmul_3x3 det3_3x3 by (simp add: algebra_simps)

lemma cramer_row:
  fixes D :: real
  assumes "D \<noteq> 0" and "a * n1 + b * n2 + c * n3 = x * D"
  shows "a * (n1 / D) + (b * (n2 / D) + c * (n3 / D)) = x"
proof -
  have "a * (n1 / D) + (b * (n2 / D) + c * (n3 / D)) = (a * n1 + b * n2 + c * n3) / D"
    by (simp add: add_divide_distrib)
  also have "\<dots> = x" using assms by simp
  finally show ?thesis .
qed

lemma solve3_solves:
  assumes "det3 [[a, b, c], [d, e, f], [g, h, k]] \<noteq> 0"
  shows "\<exists>t1 t2 t3. solve3 [[a, b, c], [d, e, f], [g, h, k]] [x, y, z] = Inr [t1, t2, t3]
          \<and> mat_vec [[a, b, c], [d, e, f], [g, h, k]] [t1, t2, t3] = [x, y, z]"
proof -
  define D where "D = a * (e * k - f * h) - b * (d * k - f * g) + c * (d * h - e * g)"
  define n1 where "n1 = x * (e * k - f * h) - b * (y * k - f * z) + c * (y * h - e * z)"
  define n2 where "n2 = a * (y * k - f * z) - x * (d * k - f * g) + c * (d * z - y * g)"
  define n3 where "n3 = a * (e * z - y * h) - b * (d * z - y * g) + x * (d * h - e * g)"
  have D: "D \<noteq> 0" using assms by (simp add: det3_3x3 D_def)
  have s: "solve3 [[a, b, c], [d, e, f], [g, h, k]] [x, y, z] = Inr [n1 / D, n2 / D, n3 / D]"
    using D by (simp add: solve3_def replace_col_def upt_rec det3_def D_def n1_def n2_def n3_def)
  have r1: "a * n1 + b * n2 + c * n3 = x * D"
    by (simp add: D_def n1_def n2_def n3_def algebra_simps)
  have r2: "d * n1 + e * n2 + f * n3 = y * D"
    by (simp add: D_def n1_def n2_def n3_def algebra_simps)
  have r3: "g * n1 + h * n2 + k * n3 = z * D"
    by (simp add: D_def n1_def n2_def n3_def algebra_simps)
  have "mat_vec [[a, b, c], [d, e, f], [g, h, k]] [n1 / D, n2 / D, n3 / D] = [x, y, z]"
    using cramer_row[OF D r1] cramer_row[OF D r2] cramer_row[OF D r3]
    by (simp add: mat_vec_def dot_def)
  with s show ?thesis by blast
qed

lemma diag_mat3: "diag_mat [a, b, c] = [[a, 0, 0], [0, b, 0], [0, 0, c]]"
  by (simp add: diag_mat_def upt_rec)

lemma diag_of3: "diag_of [[a, b, c], [d, e, f], [g, h, k]] = [a, e, k]"
  by (simp add: diag_of_def upt_rec)

lemma RQ_factorization_3x3:
  assumes "qr (transpose (flipud A)) =
     ([[q00, q01, q02], [q10, q11, q12], [q20, q21, q22]],
      [[r00, r01, r02], [0, r11, r12], [0, 0, r22]])"
  shows "RQ_factorization qr A =
     ([[r22, r12, r02], [0, r11, r01], [0, 0, r00]],
      [[q02, q12, q22], [q01, q11, q21], [q00, q10, q20]])"
  using assms by (simp add: RQ_factorization_def flipud_def fliplr_def)

lemma RQ_product:
  assumes "matmul [[q00, q01, q02], [q10, q11, q12], [q20, q21, q22]]
                  [[r00, r01, r02], [0, r11, r12], [0, 0, r22]]
           = [[a20, a10, a00], [a21, a11, a01], [a22, a12, a02]]"
  shows "matmul [[r22, r12, r02], [0, r11, r01], [0, 0, r00]]
                [[q02, q12, q22], [q01, q11, q21], [q00, q10, q20]]
           = [[a00, a01, a02], [a10, a11, a12], [a20, a21, a22]]"
  using assms unfolding matmul_3x3 by (simp add: algebra_simps)

lemma orthogonal_flip_transpose:
  assumes "orthogonal [[q00, q01, q02], [q10, q11, q12], [q20, q21, q22]]"
  shows "orthogonal [[q02, q12, q22], [q01, q11, q21], [q00, q10, q20]]"
  using assms unfolding orthogonal_3x3 by (simp add: algebra_simps)

lemma sgn_cases:
  fixes r :: real
  assumes "r \<noteq> 0"
  shows "sgn r = 1 \<or> sgn r = - 1"
  using assms by (simp add: sgn_real_def)

lemma orthogonal_signs:
  assumes "orthogonal [[a, b, c], [d, e, f], [g, h, k]]"
    and "s0 = 1 \<or> s0 = - 1" and "s1 = 1 \<or> s1 = - 1" and "s2 = 1 \<or> s2 = - 1"
  shows "orthogonal (matmul (diag_mat [s0, s1, s2]) [[a, b, c], [d, e, f], [g, h, k]])"
  using assms unfolding diag_mat3 matmul_3x3 orthogonal_3x3 by auto

lemma signs_cancel:
  assumes "s0 = 1 \<or> s0 = - 1" and "s1 = 1 \<or> s1 = - 1" and "s2 = 1 \<or> s2 = - 1"
  shows "matmul (matmul [[a, b, c], [d, e, f], [g, h, k]] (diag_mat [s0, s1, s2]))
                (matmul (diag_mat [s0, s1, s2]) [[a', b', c'], [d', e', f'], [g', h', k']])
       = matmul [[a, b, c], [d, e, f], [g, h, k]] [[a', b', c'], [d', e', f'], [g', h', k']]"
  using assms unfolding diag_mat3 matmul_3x3 by auto

lemma orthogonal_negated:
  assumes "orthogonal [[a, b, c], [d, e, f], [g, h, k]]"
  shows "orthogonal (scale_mat (- 1) [[a, b, c], [d, e, f], [g, h, k]])"
  using assms unfolding orthogonal_3x3 scale_mat_def scale_vec_def
  by (simp add: orthogonal_3x3)

lemma det3_negated:
  "det3 (scale_mat (- 1) [[a, b, c], [d, e, f], [g, h, k]])
     = - det3 [[a, b, c], [d, e, f], [g, h, k]]"
  by (simp add: scale_mat_def scale_vec_def det3_3x3 algebra_simps)

lemma orthogonal_det:
  assumes "orthogonal [[a, b, c], [d, e, f], [g, h, k]]"
  shows "det3 [[a, b, c], [d, e, f], [g, h, k]] = 1 \<or> det3 [[a, b, c], [d, e, f], [g, h, k]] = - 1"
proof -
  let ?R = "[[a, b, c], [d, e, f], [g, h, k]]"
  have "matmul ?R [[a, d, g], [b, e, h], [c, f, k]] = [[1, 0, 0], [0, 1, 0], [0, 0, 1]]"
    using assms unfolding orthogonal_3x3 matmul_3x3 by (simp add: algebra_simps)
  then have "det3 (matmul ?R [[a, d, g], [b, e, h], [c, f, k]]) = 1"
    by (simp add: det3_3x3)
  moreover have "det3 [[a, d, g], [b, e, h], [c, f, k]] = det3 ?R"
    by (simp add: det3_3x3 algebra_simps)
  ultimately have "det3 ?R * det3 ?R = 1"
    by (simp add: det3_matmul)
  then show ?thesis
    by (simp add: power2_eq_square[symmetric] power2_eq_1_iff)
qed

lemma dims_3_4_entries:
  assumes "dims 3 4 P"
  obtains p00 p01 p02 p03 p10 p11 p12 p13 p20 p21 p22 p23 :: real
  where "P = [[p00, p01, p02, p03], [p10, p11, p12, p13], [p20, p21, p22, p23]]"
proof -
  from assms obtain a b c where P: "P = [a, b, c]"
    and l: "length a = 4" "length b = 4" "length c = 4"
    by (rule dims_3_4)
  obtain p00 p01 p02 p03 where "a = [p00, p01, p02, p03]" using l(1) by (rule list4)
  moreover obtain p10 p11 p12 p13 where "b = [p10, p11, p12, p13]" using l(2) by (rule list4)
  moreover obtain p20 p21 p22 p23 where "c = [p20, p21, p22, p23]" using l(3) by (rule list4)
  ultimately show ?thesis using P by (intro that) simp
qed

lemma dot_divided: "dot (map (\<lambda>x. x / d) r) c = dot r c / d"
  unfolding dot_def
proof (induction r arbitrary: c)
  case Nil
  then show ?case by simp
next
  case (Cons x r)
  then show ?case by (cases c) (simp_all add: add_divide_distrib)
qed

lemma matmul_div_mat: "matmul (div_mat K d) M = div_mat (matmul K M) d"
  by (simp add: matmul_def div_mat_def dot_divided)

lemma matmul_hstack_column:
  "matmul [[a, b, c], [d, e, f], [g, h, k]]
          (hstack [[a', b', c'], [d', e', f'], [g', h', k']] (map (\<lambda>x. [x]) [t1, t2, t3]))
     = hstack (matmul [[a, b, c], [d, e, f], [g, h, k]] [[a', b', c'], [d', e', f'], [g', h', k']])
              (map (\<lambda>x. [x]) (mat_vec [[a, b, c], [d, e, f], [g, h, k]] [t1, t2, t3]))"
  by (simp add: matmul_def hstack_def mat_vec_def dot_def)

lemma matmul_hstack_negated:
  "matmul [[a, b, c], [d, e, f], [g, h, k]]
          (hstack (scale_mat (- 1) [[a', b', c'], [d', e', f'], [g', h', k']])
                  (map (\<lambda>x. [x]) (scale_vec (- 1) [t1, t2, t3])))
     = scale_mat (- 1)
         (matmul [[a, b, c], [d, e, f], [g, h, k]]
            (hstack [[a', b', c'], [d', e', f'], [g', h', k']] (map (\<lambda>x. [x]) [t1, t2, t3])))"
  by (simp add: matmul_def hstack_def scale_mat_def scale_vec_def dot_def)

lemma abs_by_sgn:
  fixes r :: real
  assumes "r \<noteq> 0"
  shows "0 < r * sgn r"
  using assms by (simp add: sgn_real_def)

text \<open>
  Claim C4: for every 3 by 4 camera matrix \<open>P\<close> whose leading 3 by 3 block is nonsingular,
  \<^verbatim>\<open>KRt_from_P\<close> returns \<open>(K, R, t)\<close> with \<open>K\<close> upper-triangular, its diagonal strictly
  positive and \<open>K[2,2] = 1\<close>, with \<open>R\<close> orthogonal of determinant 1, and with \<open>K [R|t]\<close> equal
  to \<open>P\<close> up to a nonzero scale factor. The library call \<^verbatim>\<open>np.linalg.qr\<close> is taken with its
  contract: an orthogonal \<open>Q\<close> and an upper-triangular \<open>R\<close> whose product is the argument.
\<close>
theorem KRt_from_P_factorisation:
  assumes P: "dims 3 4 P"
    and ns: "det3 (map (take 3) P) \<noteq> 0"
    and qr: "qr (transpose (flipud (map (take 3) P))) = (Q, R0)"
    and Q: "dims 3 3 Q" and oQ: "orthogonal Q"
    and R0: "dims 3 3 R0" and uR0: "upper_triangular R0"
    and QR: "matmul Q R0 = transpose (flipud (map (take 3) P))"
  shows "\<exists>K R t. KRt_from_P qr P = Inr (K, R, t)
       \<and> dims 3 3 K \<and> upper_triangular K
       \<and> 0 < K ! 0 ! 0 \<and> 0 < K ! 1 ! 1 \<and> K ! 2 ! 2 = 1
       \<and> dims 3 3 R \<and> orthogonal R \<and> det3 R = 1
       \<and> length t = 3
       \<and> (\<exists>c. c \<noteq> 0 \<and> matmul K (hstack R (map (\<lambda>x. [x]) t)) = scale_mat c P)"
proof -
  from P obtain p00 p01 p02 p03 p10 p11 p12 p13 p20 p21 p22 p23
    where P': "P = [[p00, p01, p02, p03], [p10, p11, p12, p13], [p20, p21, p22, p23]]"
    by (rule dims_3_4_entries)
  let ?A = "[[p00, p01, p02], [p10, p11, p12], [p20, p21, p22]]"
  have A: "map (take 3) P = ?A" by (simp add: P')
  have b: "col P 3 = [p03, p13, p23]" by (simp add: P' col_def)
  have M: "transpose (flipud ?A) = [[p20, p10, p00], [p21, p11, p01], [p22, p12, p02]]"
    by (simp add: flipud_def)
  from Q obtain q00 q01 q02 q10 q11 q12 q20 q21 q22
    where Q': "Q = [[q00, q01, q02], [q10, q11, q12], [q20, q21, q22]]"
    by (rule dims_3_3)
  from R0 obtain r00 r01 r02 r10 r11 r12 r20 r21 r22
    where R0'': "R0 = [[r00, r01, r02], [r10, r11, r12], [r20, r21, r22]]"
    by (rule dims_3_3)
  with uR0 have R0': "R0 = [[r00, r01, r02], [0, r11, r12], [0, 0, r22]]"
    by (simp add: upper_triangular_3x3)
  let ?K0 = "[[r22, r12, r02], [0, r11, r01], [0, 0, r00]]"
  let ?Rr = "[[q02, q12, q22], [q01, q11, q21], [q00, q10, q20]]"
  have rq: "RQ_factorization qr ?A = (?K0, ?Rr)"
    using qr by (intro RQ_factorization_3x3) (simp add: A Q' R0')
  have prod: "matmul ?K0 ?Rr = ?A"
    using QR by (intro RQ_product) (simp add: A M Q' R0')
  have oRr: "orthogonal ?Rr"
    using oQ unfolding Q' by (rule orthogonal_flip_transpose)
  have "det3 ?A = det3 ?K0 * det3 ?Rr"
    using det3_matmul[of r22 r12 r02 0 r11 r01 0 0 r00 q02 q12 q22 q01 q11 q21 q00 q10 q20]
    by (simp add: prod)
  moreover have "det3 ?K0 = r22 * r11 * r00"
    by (simp add: det3_3x3)
  ultimately have nz: "r22 \<noteq> 0" "r11 \<noteq> 0" "r00 \<noteq> 0"
    using ns by (auto simp: A)
  define s0 s1 s2 where "s0 = sgn r22" and "s1 = sgn r11" and "s2 = sgn r00"
  have sg: "s0 = 1 \<or> s0 = - 1" "s1 = 1 \<or> s1 = - 1" "s2 = 1 \<or> s2 = - 1"
    using nz by (simp_all add: s0_def s1_def s2_def sgn_cases)
  have pos: "0 < r22 * s0" "0 < r11 * s1" "0 < r00 * s2"
    using nz by (simp_all add: s0_def s1_def s2_def abs_by_sgn)
  have T: "diag_mat (map sgn (diag_of ?K0)) = diag_mat [s0, s1, s2]"
    by (simp add: diag_of3 s0_def s1_def s2_def)
  let ?K1 = "[[r22 * s0, r12 * s1, r02 * s2], [0, r11 * s1, r01 * s2], [0, 0, r00 * s2]]"
  let ?R1 = "[[s0 * q02, s0 * q12, s0 * q22], [s1 * q01, s1 * q11, s1 * q21],
              [s2 * q00, s2 * q10, s2 * q20]]"
  have K1: "matmul ?K0 (diag_mat [s0, s1, s2]) = ?K1"
    by (simp add: diag_mat3 matmul_3x3)
  have R1: "matmul (diag_mat [s0, s1, s2]) ?Rr = ?R1"
    by (simp add: diag_mat3 matmul_3x3)
  have K1R1: "matmul ?K1 ?R1 = ?A"
    using signs_cancel[OF sg, of r22 r12 r02 0 r11 r01 0 0 r00 q02 q12 q22 q01 q11 q21 q00 q10 q20]
    by (simp add: K1 R1 prod)
  have oR1: "orthogonal ?R1"
    using orthogonal_signs[OF oRr sg] by (simp add: R1)
  have dR1: "det3 ?R1 = 1 \<or> det3 ?R1 = - 1"
    using oR1 by (rule orthogonal_det)
  have "det3 ?K1 = (r22 * s0) * (r11 * s1) * (r00 * s2)"
    by (simp add: det3_3x3)
  moreover have "0 < (r22 * s0) * (r11 * s1) * (r00 * s2)"
    by (rule mult_pos_pos[OF mult_pos_pos[OF pos(1) pos(2)] pos(3)])
  ultimately have dK1: "det3 ?K1 \<noteq> 0" by linarith
  from solve3_solves[OF dK1, of p03 p13 p23]
  obtain t1 t2 t3 where sol: "solve3 ?K1 [p03, p13, p23] = Inr [t1, t2, t3]"
    and Kt: "mat_vec ?K1 [t1, t2, t3] = [p03, p13, p23]"
    by blast
  have full: "matmul ?K1 (hstack ?R1 (map (\<lambda>x. [x]) [t1, t2, t3])) = P"
    unfolding matmul_hstack_column K1R1 Kt by (simp add: P' hstack_def)
  let ?d = "r00 * s2"
  let ?K = "div_mat ?K1 ?d"
  have Kd: "dims 3 3 ?K" by (simp add: div_mat_def dims_def)
  have Ku: "upper_triangular ?K" by (simp add: div_mat_def upper_triangular_3x3)
  have dne: "?d \<noteq> 0" using pos(3) by linarith
  have Kp: "0 < ?K ! 0 ! 0" "0 < ?K ! 1 ! 1" "?K ! 2 ! 2 = 1"
    using pos dne by (simp_all add: div_mat_def)
  have dnz: "1 / ?d \<noteq> 0" "- 1 / ?d \<noteq> 0" using dne by simp_all
  show ?thesis
  proof (cases "det3 ?R1 < 0")
    case True
    let ?R = "scale_mat (- 1) ?R1" and ?t = "scale_vec (- 1) [t1, t2, t3]"
    have res: "KRt_from_P qr P = Inr (?K, ?R, ?t)"
      using True by (simp add: KRt_from_P_def A rq T K1 R1 b sol Let_def)
    have "det3 ?R1 = - 1" using True dR1 by auto
    then have dR: "det3 ?R = 1" by (simp add: det3_negated)
    have oR: "orthogonal ?R" using oR1 by (rule orthogonal_negated)
    have Rd: "dims 3 3 ?R" by (simp add: scale_mat_def scale_vec_def dims_def)
    have tl: "length ?t = 3" by (simp add: scale_vec_def)
    have "matmul ?K (hstack ?R (map (\<lambda>x. [x]) ?t)) = div_mat (scale_mat (- 1) P) ?d"
      unfolding matmul_div_mat matmul_hstack_negated full ..
    also have "\<dots> = scale_mat (- 1 / ?d) P"
      by (simp add: P' div_mat_def scale_mat_def scale_vec_def)
    finally have "matmul ?K (hstack ?R (map (\<lambda>x. [x]) ?t)) = scale_mat (- 1 / ?d) P" .
    with dnz(2) have "\<exists>c. c \<noteq> 0 \<and> matmul ?K (hstack ?R (map (\<lambda>x. [x]) ?t)) = scale_mat c P"
      by blast
    with res Kd Ku Kp Rd oR dR tl show ?thesis by blast
  next
    case False
    have res: "KRt_from_P qr P = Inr (?K, ?R1, [t1, t2, t3])"
      using False by (simp add: KRt_from_P_def A rq T K1 R1 b sol Let_def)
    have dR: "det3 ?R1 = 1" using False dR1 by auto
    have Rd: "dims 3 3 ?R1" by (simp add: dims_def)
    have tl: "length [t1, t2, t3] = 3" by simp
    have "matmul ?K (hstack ?R1 (map (\<lambda>x. [x]) [t1, t2, t3])) = div_mat P ?d"
      unfolding matmul_div_mat full ..
    also have "\<dots> = scale_mat (1 / ?d) P"
      by (simp add: P' div_mat_def scale_mat_def scale_vec_def)
    finally have "matmul ?K (hstack ?R1 (map (\<lambda>x. [x]) [t1, t2, t3])) = scale_mat (1 / ?d) P" .
    with dnz(1) have "\<exists>c. c \<noteq> 0 \<and> matmul ?K (hstack ?R1 (map (\<lambda>x. [x]) [t1, t2, t3])) = scale_mat c P"
      by blast
    with res Kd Ku Kp Rd oR1 dR tl show ?thesis by blast
  qed
qed

text \<open>The camera \<open>K [I | t]\<close> with \<open>K = [[2, 1, 3], [0, 4, 5], [0, 0, 2]]\<close> and \<open>t = (1, 1, 1)\<close>.\<close>
lemma KRt_from_P_example:
  "KRt_from_P (\<lambda>M. ([[0, 0, 1], [0, 1, 0], [1, 0, 0]], [[2, 5, 3], [0, 4, 1], [0, 0, 2]]))
     [[2, 1, 3, 6], [0, 4, 5, 9], [0, 0, 2, 2]]
   = Inr ([[1, 1 / 2, 3 / 2], [0, 2, 5 / 2], [0, 0, 1]],
          [[1, 0, 0], [0, 1, 0], [0, 0, 1]],
          [1, 1, 1])"
  by (simp add: KRt_from_P_def RQ_factorization_def flipud_def fliplr_def diag_of3 diag_mat3
      matmul_3x3 col_def solve3_def det3_3x3 replace_col_def upt_rec div_mat_def Let_def)

text \<open>The theorem at the same camera.\<close>
theorem KRt_from_P_factorisation_witness:
  "\<exists>K R t.
     KRt_from_P (\<lambda>M. ([[0, 0, 1], [0, 1, 0], [1, 0, 0]], [[2, 5, 3], [0, 4, 1], [0, 0, 2]]))
       [[2, 1, 3, 6], [0, 4, 5, 9], [0, 0, 2, 2]] = Inr (K, R, t)
     \<and> upper_triangular K \<and> 0 < K ! 0 ! 0 \<and> 0 < K ! 1 ! 1 \<and> K ! 2 ! 2 = 1
     \<and> orthogonal R \<and> det3 R = 1
     \<and> (\<exists>c. c \<noteq> 0 \<and> matmul K (hstack R (map (\<lambda>x. [x]) t))
            = scale_mat c [[2, 1, 3, 6], [0, 4, 5, 9], [0, 0, 2, 2]])"
proof -
  let ?P = "[[2, 1, 3, 6], [0, 4, 5, 9], [0, 0, 2, 2 :: real]]"
  let ?Q = "[[0, 0, 1], [0, 1, 0], [1, 0, 0 :: real]]"
  let ?R0 = "[[2, 5, 3], [0, 4, 1], [0, 0, 2 :: real]]"
  let ?qr = "\<lambda>M :: mat. (?Q, ?R0)"
  have P: "dims 3 4 ?P" by (simp add: dims_def)
  have ns: "det3 (map (take 3) ?P) \<noteq> 0" by (simp add: det3_3x3)
  have qr: "?qr (transpose (flipud (map (take 3) ?P))) = (?Q, ?R0)" by simp
  have Q: "dims 3 3 ?Q" by (simp add: dims_def)
  have oQ: "orthogonal ?Q" by (simp add: orthogonal_3x3)
  have R0: "dims 3 3 ?R0" by (simp add: dims_def)
  have uR0: "upper_triangular ?R0" by (simp add: upper_triangular_3x3)
  have QR: "matmul ?Q ?R0 = transpose (flipud (map (take 3) ?P))"
    by (simp add: matmul_3x3 flipud_def)
  from KRt_from_P_factorisation [OF P ns qr Q oQ R0 uR0 QR]
  show ?thesis by blast
qed

end
